theory Spec2Isabelle
  imports Complex_Main
begin

section \<open>JavaScript numbers\<close>

text \<open>
  The editor computes with IEEE doubles. Finite doubles are idealised as reals (no rounding);
  the three non-finite values are kept, because the code tests for them (\<open>isFinite\<close>,
  comparisons that are false on \<open>NaN\<close>, \<open>Math.max\<close> that propagates \<open>NaN\<close>).
  Signed zeros are not distinguished.
\<close>

datatype jsnum = Num real | PosInf | NegInf | NaN

fun isFinite :: "jsnum \<Rightarrow> bool" where
  "isFinite (Num r) = True"
| "isFinite PosInf = False"
| "isFinite NegInf = False"
| "isFinite NaN = False"

fun jadd :: "jsnum \<Rightarrow> jsnum \<Rightarrow> jsnum" where
  "jadd (Num a) (Num b) = Num (a + b)"
| "jadd NaN y = NaN"
| "jadd x NaN = NaN"
| "jadd PosInf NegInf = NaN"
| "jadd NegInf PosInf = NaN"
| "jadd PosInf y = PosInf"
| "jadd x PosInf = PosInf"
| "jadd NegInf y = NegInf"
| "jadd x NegInf = NegInf"

fun jneg :: "jsnum \<Rightarrow> jsnum" where
  "jneg (Num a) = Num (- a)"
| "jneg PosInf = NegInf"
| "jneg NegInf = PosInf"
| "jneg NaN = NaN"

definition jsub :: "jsnum \<Rightarrow> jsnum \<Rightarrow> jsnum" where
  "jsub x y = jadd x (jneg y)"

text \<open>The sign of a number, \<open>None\<close> for \<open>NaN\<close>.\<close>

fun jsign :: "jsnum \<Rightarrow> int option" where
  "jsign (Num a) = Some (if a > 0 then 1 else if a < 0 then - 1 else 0)"
| "jsign PosInf = Some 1"
| "jsign NegInf = Some (- 1)"
| "jsign NaN = None"

fun jmul :: "jsnum \<Rightarrow> jsnum \<Rightarrow> jsnum" where
  "jmul (Num a) (Num b) = Num (a * b)"
| "jmul x y =
     (case (jsign x, jsign y) of
        (Some s, Some t) \<Rightarrow>
          (if s * t > 0 then PosInf else if s * t < 0 then NegInf else NaN)
      | _ \<Rightarrow> NaN)"

text \<open>Comparison \<open>x <= y\<close>: false as soon as one side is \<open>NaN\<close>.\<close>

fun jle :: "jsnum \<Rightarrow> jsnum \<Rightarrow> bool" where
  "jle NaN y = False"
| "jle x NaN = False"
| "jle (Num a) (Num b) = (a \<le> b)"
| "jle NegInf y = True"
| "jle x PosInf = True"
| "jle PosInf y = False"
| "jle x NegInf = False"

definition jlt :: "jsnum \<Rightarrow> jsnum \<Rightarrow> bool" where
  "jlt x y = (jle x y \<and> x \<noteq> y)"

text \<open>\<open>Math.max\<close> and \<open>Math.min\<close> of two arguments.\<close>

definition jmax :: "jsnum \<Rightarrow> jsnum \<Rightarrow> jsnum" where
  "jmax x y = (if x = NaN \<or> y = NaN then NaN else if jle x y then y else x)"

definition jmin :: "jsnum \<Rightarrow> jsnum \<Rightarrow> jsnum" where
  "jmin x y = (if x = NaN \<or> y = NaN then NaN else if jle x y then x else y)"

fun jfloor :: "jsnum \<Rightarrow> jsnum" where
  "jfloor (Num a) = Num (of_int \<lfloor>a\<rfloor>)"
| "jfloor x = x"

fun jabs :: "jsnum \<Rightarrow> jsnum" where
  "jabs (Num a) = Num \<bar>a\<bar>"
| "jabs NaN = NaN"
| "jabs x = PosInf"

fun jcos :: "jsnum \<Rightarrow> jsnum" where
  "jcos (Num a) = Num (cos a)"
| "jcos x = NaN"

text \<open>The remainder \<open>x % y\<close>, which has the sign of \<open>x\<close>.\<close>

definition js_trunc :: "real \<Rightarrow> int" where
  "js_trunc r = (if r \<ge> 0 then \<lfloor>r\<rfloor> else \<lceil>r\<rceil>)"

definition js_rem :: "real \<Rightarrow> real \<Rightarrow> real" where
  "js_rem x y = x - y * of_int (js_trunc (x / y))"

fun jmod :: "jsnum \<Rightarrow> jsnum \<Rightarrow> jsnum" where
  "jmod (Num a) (Num b) = (if b = 0 then NaN else Num (js_rem a b))"
| "jmod (Num a) PosInf = Num a"
| "jmod (Num a) NegInf = Num a"
| "jmod x y = NaN"

fun jdiv :: "jsnum \<Rightarrow> jsnum \<Rightarrow> jsnum" where
  "jdiv (Num a) (Num b) =
     (if b \<noteq> 0 then Num (a / b)
      else if a > 0 then PosInf else if a < 0 then NegInf else NaN)"
| "jdiv NaN y = NaN"
| "jdiv x NaN = NaN"
| "jdiv (Num a) y = Num 0"
| "jdiv PosInf (Num b) = (if b \<ge> 0 then PosInf else NegInf)"
| "jdiv NegInf (Num b) = (if b \<ge> 0 then NegInf else PosInf)"
| "jdiv x y = NaN"

text \<open>\<open>x || 0\<close> on a number: \<open>NaN\<close> and 0 are the falsy ones.\<close>

definition orZero :: "jsnum \<Rightarrow> jsnum" where
  "orZero x = (if x = NaN then Num 0 else x)"

text \<open>\<open>a ?? b\<close> on an optional number (\<open>None\<close> is \<open>null\<close> or \<open>undefined\<close>).\<close>

fun nullish :: "'a option \<Rightarrow> 'a option \<Rightarrow> 'a option" where
  "nullish (Some a) b = Some a"
| "nullish None b = b"

fun orElse :: "'a option \<Rightarrow> 'a \<Rightarrow> 'a" where
  "orElse (Some a) d = a"
| "orElse None d = d"

section \<open>Segments\<close>

type_synonym coord = "real \<times> real"

text \<open>A map coordinate with an altitude, as \<open>new maptalks.Coordinate(x, y, z)\<close>.\<close>

type_synonym coord3 = "real \<times> real \<times> jsnum"

datatype alignment = AlignLeft | AlignCenter | AlignRight | AlignJustify

datatype orientation = Landscape | Portrait

text \<open>
  The fields of \<open>FieldSegment\<close> that the geometry engine reads; \<open>None\<close> is a field that
  is \<open>null\<close> or \<open>undefined\<close>. \<open>geometry\<close> is the shell of
  the polygon that \<open>maptalks.Geometry.fromJSON\<close> yields, \<open>None\<close> when the JSON gives no
  polygon. The snake-case height fields are the fallbacks the code reads through
  \<open>??\<close>. Time strings are plain strings, the empty string being the falsy one.
\<close>

record field_segment =
  seg_id :: string
  geometry :: "coord list option"
  surfaceHeight :: "jsnum option"
  surface_height :: "jsnum option"
  rackingHeight :: "jsnum option"
  racking_height :: "jsnum option"
  parapetHeight :: "jsnum option"
  parapet_height :: "jsnum option"
  analysisDate :: string
  timeOfDay :: string
  startTime :: string
  endTime :: string
  module :: "string option"
  defaultOrientation :: "orientation option"
  frameSizeUp :: "jsnum option"
  frameSizeWide :: "jsnum option"
  rowSpacing :: "jsnum option"
  moduleSpacing :: "jsnum option"
  frameSpacing :: "jsnum option"
  moduleAzimuth :: "jsnum option"
  setback :: "jsnum option"
  alignment :: "alignment option"

section \<open>Extrusion and wall builder\<close>

definition surfaceFeet :: "field_segment \<Rightarrow> jsnum" where
  "surfaceFeet seg = orElse (nullish (surfaceHeight seg) (surface_height seg)) (Num 0)"

definition rackingFeetOf :: "field_segment \<Rightarrow> jsnum" where
  "rackingFeetOf seg = orElse (nullish (rackingHeight seg) (racking_height seg)) (Num 0)"

definition parapetFeetOf :: "field_segment \<Rightarrow> jsnum" where
  "parapetFeetOf seg = orElse (nullish (parapetHeight seg) (parapet_height seg)) (Num 0)"

definition FT :: real where
  "FT = 0.3048"

text \<open>The closed five-point ring of a vertical panel over the edge \<open>(a, b)\<close>.\<close>

definition panel :: "coord \<Rightarrow> coord \<Rightarrow> jsnum \<Rightarrow> jsnum \<Rightarrow> coord3 list" where
  "panel a b zTop zBase =
     [(fst a, snd a, zTop), (fst b, snd b, zTop), (fst b, snd b, zBase),
      (fst a, snd a, zBase), (fst a, snd a, zTop)]"

text \<open>The body of the loop over the shell, for index \<open>i\<close>.\<close>

definition wallsAt :: "coord list \<Rightarrow> jsnum \<Rightarrow> jsnum \<Rightarrow> nat \<Rightarrow> coord3 list list" where
  "wallsAt shell z paraZ i =
     (let a = shell ! i; b = shell ! ((i + 1) mod length shell)
      in if a = b then []
         else panel a b z (Num 0) #
              (if jlt (Num 0) paraZ then [panel a b (jadd z paraZ) z] else []))"

function wallLoop :: "coord list \<Rightarrow> jsnum \<Rightarrow> jsnum \<Rightarrow> nat \<Rightarrow> coord3 list list" where
  "wallLoop shell z paraZ i =
     (if i < length shell then wallsAt shell z paraZ i @ wallLoop shell z paraZ (i + 1)
      else [])"
  by pat_completeness auto
termination
  by (relation "measure (\<lambda>(shell, z, paraZ, i). length shell - i)") auto

declare wallLoop.simps [simp del]

definition wallsOfSegment :: "field_segment \<Rightarrow> coord3 list list" where
  "wallsOfSegment seg =
     (case geometry seg of
        None \<Rightarrow> []
      | Some shell \<Rightarrow>
          if length shell < 2 then []
          else let z = jmul (surfaceFeet seg) (Num FT);
                   paraZ = jmax (Num 0) (jmul (parapetFeetOf seg) (Num FT))
               in wallLoop shell z paraZ 0)"

section \<open>External collaborators\<close>

text \<open>
  A polygon feature is the list of its rings. A feature that a union or a buffer returns is
  a polygon or a multi-polygon (a list of polygons).
\<close>

type_synonym poly = "coord list list"

datatype feature = Polygon poly | MultiPolygon "poly list"

text \<open>What a call that may throw does.\<close>

datatype 'a outcome = Throws | Returns 'a

fun andThen :: "'a outcome \<Rightarrow> ('a \<Rightarrow> 'b outcome) \<Rightarrow> 'b outcome" where
  "andThen Throws f = Throws"
| "andThen (Returns a) f = f a"

datatype units = Meters | Kilometers

text \<open>
  The geometry library (turf), the sun-position provider (SunCalc) and the clock are not part
  of the repository: they are parameters of the model. \<open>polygonOk\<close> says on which ring
  lists \<open>turf.polygon\<close> returns instead of throwing; what it returns is the feature
  carrying these rings. \<open>union\<close> and \<open>buffer\<close> may throw, and may return no feature
  (\<open>null\<close>, \<open>undefined\<close>). \<open>getPosition\<close> takes the date string and the time
  string from which the code builds the \<open>Date\<close> it passes to SunCalc at the project's
  latitude and longitude, and gives azimuth and altitude in radians, finite numbers.
\<close>

record collab =
  polygonOk :: "poly \<Rightarrow> bool"
  destination :: "coord \<Rightarrow> jsnum \<Rightarrow> jsnum \<Rightarrow> coord"
  union :: "feature \<Rightarrow> feature \<Rightarrow> feature option outcome"
  buffer :: "poly \<Rightarrow> jsnum \<Rightarrow> feature option outcome"
  area :: "poly \<Rightarrow> real"
  booleanWithin :: "poly \<Rightarrow> poly \<Rightarrow> bool outcome"
  centroid :: "poly \<Rightarrow> coord"
  distance :: "units \<Rightarrow> coord \<Rightarrow> coord \<Rightarrow> real"
  bearing :: "coord \<Rightarrow> coord \<Rightarrow> real"
  getPosition :: "string \<Rightarrow> string \<Rightarrow> (real \<times> real) outcome"
  dec22ThisYear :: string

definition polygon :: "collab \<Rightarrow> poly \<Rightarrow> poly outcome" where
  "polygon E rings = (if polygonOk E rings then Returns rings else Throws)"

section \<open>Shadow projector\<close>

subsection \<open>Clock strings\<close>

definition isSpace :: "char \<Rightarrow> bool" where
  "isSpace c = (c = CHR '' '' \<or> c = CHR 0x09 \<or> c = CHR 0x0A \<or> c = CHR 0x0B
                \<or> c = CHR 0x0C \<or> c = CHR 0x0D)"

text \<open>The value of a digit in the given radix (10 or 16), if it is one.\<close>

definition digitVal :: "nat \<Rightarrow> char \<Rightarrow> nat option" where
  "digitVal radix c =
     (case map_of
             [(CHR ''0'', 0), (CHR ''1'', 1), (CHR ''2'', 2), (CHR ''3'', 3), (CHR ''4'', 4),
              (CHR ''5'', 5), (CHR ''6'', 6), (CHR ''7'', 7), (CHR ''8'', 8), (CHR ''9'', 9),
              (CHR ''a'', 10), (CHR ''b'', 11), (CHR ''c'', 12), (CHR ''d'', 13),
              (CHR ''e'', 14), (CHR ''f'', 15),
              (CHR ''A'', 10), (CHR ''B'', 11), (CHR ''C'', 12), (CHR ''D'', 13),
              (CHR ''E'', 14), (CHR ''F'', 15)] c of
        None \<Rightarrow> None
      | Some d \<Rightarrow> if d < radix then Some d else None)"

text \<open>
  \<open>parseInt(s)\<close> with no radix: leading white space, a sign, a \<open>0x\<close> prefix for base
  16, then the longest run of digits; \<open>None\<close> is \<open>NaN\<close>.
\<close>

definition parseInt :: "string \<Rightarrow> int option" where
  "parseInt s =
     (let s1 = dropWhile isSpace s;
          neg = (take 1 s1 = ''-'');
          s2 = (if take 1 s1 = ''-'' \<or> take 1 s1 = ''+'' then drop 1 s1 else s1);
          hex = (take 2 s2 = ''0x'' \<or> take 2 s2 = ''0X'');
          radix = (if hex then 16 else 10);
          s3 = (if hex then drop 2 s2 else s2);
          ds = takeWhile (\<lambda>c. digitVal radix c \<noteq> None) s3;
          v = foldl (\<lambda>acc c. acc * int radix + int (the (digitVal radix c))) 0 ds
      in if ds = [] then None else Some (if neg then - v else v))"

text \<open>\<open>s.split(':')\<close>, which always has a first part.\<close>

fun splitColon :: "string \<Rightarrow> string list" where
  "splitColon [] = [[]]"
| "splitColon (c # cs) =
     (if c = CHR '':'' then [] # splitColon cs
      else (case splitColon cs of p # ps \<Rightarrow> (c # p) # ps | [] \<Rightarrow> [[c]]))"

definition parseHHmmToMinutes :: "string \<Rightarrow> int" where
  "parseHHmmToMinutes t =
     (case map parseInt (splitColon t) of
        [] \<Rightarrow> 0
      | h # rest \<Rightarrow>
          (case h of
             None \<Rightarrow> 0
           | Some hv \<Rightarrow> hv * 60 + (case rest of Some mv # others \<Rightarrow> mv | _ \<Rightarrow> 0)))"

text \<open>\<open>a || b\<close> on strings: the empty string is falsy.\<close>

definition orStr :: "string \<Rightarrow> string \<Rightarrow> string" where
  "orStr a b = (if a = [] then b else a)"

definition getStartTime :: "field_segment \<Rightarrow> string" where
  "getStartTime seg = orStr (startTime seg) (orStr (timeOfDay seg) ''10:00'')"

definition getEndTime :: "field_segment \<Rightarrow> string" where
  "getEndTime seg = orStr (endTime seg) ''16:00''"

text \<open>
  The sampled window in minutes of the day: \<open>minutesStart\<close> and \<open>minutesEnd\<close> after
  the swap of an inverted window.
\<close>

definition window :: "field_segment \<Rightarrow> int \<times> int" where
  "window seg =
     (let startTs = getStartTime seg;
          endTs = getEndTime seg;
          minutesStart = parseHHmmToMinutes (orStr startTs ''10:00'');
          minutesEnd = (if endTs \<noteq> [] then parseHHmmToMinutes endTs else minutesStart)
      in if minutesEnd < minutesStart then (minutesEnd, minutesStart)
         else (minutesStart, minutesEnd))"

fun showNat :: "nat \<Rightarrow> string" where
  "showNat n =
     (if n < 10 then [''0123456789'' ! n]
      else showNat (n div 10) @ [''0123456789'' ! (n mod 10)])"

declare showNat.simps [simp del]

definition showInt :: "int \<Rightarrow> string" where
  "showInt i = (if i < 0 then CHR ''-'' # showNat (nat (- i)) else showNat (nat i))"

definition padStart2 :: "string \<Rightarrow> string" where
  "padStart2 s = replicate (2 - length s) (CHR ''0'') @ s"

text \<open>The remainder \<open>m % 60\<close>, which has the sign of \<open>m\<close>.\<close>

definition rem60 :: "int \<Rightarrow> int" where
  "rem60 m = (if m \<ge> 0 then m mod 60 else - ((- m) mod 60))"

definition timeString :: "int \<Rightarrow> string" where
  "timeString m = padStart2 (showInt (m div 60)) @ '':'' @ padStart2 (showInt (rem60 m))"

subsection \<open>Sun vector\<close>

text \<open>
  Azimuth and altitude at a time of the segment's analysis date; both are 0 when the lookup
  throws.
\<close>

definition sunAt :: "collab \<Rightarrow> field_segment \<Rightarrow> string \<Rightarrow> real \<times> real" where
  "sunAt E seg timeStr =
     (let dateStr = orStr (analysisDate seg) (dec22ThisYear E)
      in case getPosition E dateStr timeStr of
           Throws \<Rightarrow> (0, 0)
         | Returns (az, alt) \<Rightarrow> (az, alt))"

definition segHeightM :: "field_segment \<Rightarrow> jsnum" where
  "segHeightM seg =
     jmul (jadd (jadd (surfaceFeet seg) (rackingFeetOf seg)) (parapetFeetOf seg)) (Num FT)"

text \<open>
  \<open>Math.tan\<close> on the reals. Where the cosine vanishes the tangent has no value; a double
  never sits on the pole, and just below it the tangent is huge, so the pole is read as
  \<open>+Infinity\<close>.
\<close>

definition jtan :: "real \<Rightarrow> jsnum" where
  "jtan a = (if cos a = 0 then PosInf else Num (sin a / cos a))"

definition segShadowLen :: "jsnum \<Rightarrow> real \<Rightarrow> jsnum" where
  "segShadowLen h sunAlt =
     (let rawLen = jdiv h (jtan sunAlt) in jmax (Num 0) (jmin (Num 500) rawLen))"

definition shadowBearing :: "real \<Rightarrow> real" where
  "shadowBearing sunAz =
     (let sunBearingFromNorth = js_rem (sunAz * 180 / pi + 180 + 360) 360
      in js_rem (sunBearingFromNorth + 180) 360)"

text \<open>
  The lines that \<open>buildTurfPolysAtTime\<close> and \<open>drawAtTime\<close> share word for word: the two
  early exits, then the length and the bearing of the translation. \<open>None\<close> is an early
  exit.
\<close>

definition shadowVector :: "collab \<Rightarrow> field_segment \<Rightarrow> string \<Rightarrow> (jsnum \<times> jsnum) option" where
  "shadowVector E seg timeStr =
     (let (sunAz, sunAlt) = sunAt E seg timeStr
      in if sunAlt \<le> 0 then None
         else let h = segHeightM seg
              in if \<not> isFinite h \<or> jle h (Num 0) then None
                 else Some (segShadowLen h sunAlt, Num (shadowBearing sunAz)))"

subsection \<open>Polygons of one instant\<close>

text \<open>
  The ring closed by its first point when first and last differ; reading the first point of
  an empty ring throws.
\<close>

definition closeRing :: "coord list \<Rightarrow> coord list outcome" where
  "closeRing ring =
     (case ring of
        [] \<Rightarrow> Throws
      | c # cs \<Rightarrow> Returns (if c \<noteq> last ring then ring @ [c] else ring))"

definition wallQuad :: "coord list \<Rightarrow> coord list \<Rightarrow> nat \<Rightarrow> coord list" where
  "wallQuad shell shiftedRing i =
     (let ni = (i + 1) mod length shell;
          a = shell ! i; b = shell ! ni;
          ap = shiftedRing ! i; bp = shiftedRing ! ni
      in [a, b, bp, ap, a])"

function turfQuads :: "collab \<Rightarrow> coord list \<Rightarrow> coord list \<Rightarrow> nat \<Rightarrow> poly list outcome" where
  "turfQuads E shell shiftedRing i =
     (if i < length shell
      then andThen (polygon E [wallQuad shell shiftedRing i])
             (\<lambda>q. andThen (turfQuads E shell shiftedRing (i + 1)) (\<lambda>qs. Returns (q # qs)))
      else Returns [])"
  by pat_completeness auto
termination
  by (relation "measure (\<lambda>(E, shell, shiftedRing, i). length shell - i)") auto

declare turfQuads.simps [simp del]

definition buildTurfPolysAtTime ::
  "collab \<Rightarrow> field_segment \<Rightarrow> coord list \<Rightarrow> string \<Rightarrow> poly list outcome" where
  "buildTurfPolysAtTime E seg shell timeStr =
     (case shadowVector E seg timeStr of
        None \<Rightarrow> Returns []
      | Some (len, brg) \<Rightarrow>
          andThen (closeRing shell) (\<lambda>baseRing.
          andThen (polygon E [baseRing]) (\<lambda>basePoly.
          let shiftedRing = map (\<lambda>c. destination E c len brg) shell
          in andThen (closeRing shiftedRing) (\<lambda>roofRing.
             andThen (polygon E [roofRing]) (\<lambda>roofPoly.
             andThen (turfQuads E shell shiftedRing 0) (\<lambda>quads.
             Returns (basePoly # roofPoly # quads)))))))"

text \<open>What \<open>drawAtTime\<close> adds to the shadow layer: each polygon as its list of rings.\<close>

function drawQuads :: "coord list \<Rightarrow> coord list \<Rightarrow> nat \<Rightarrow> poly list" where
  "drawQuads shell shiftedRing i =
     (if i < length shell
      then [wallQuad shell shiftedRing i] # drawQuads shell shiftedRing (i + 1)
      else [])"
  by pat_completeness auto
termination
  by (relation "measure (\<lambda>(shell, shiftedRing, i). length shell - i)") auto

declare drawQuads.simps [simp del]

definition drawAtTime ::
  "collab \<Rightarrow> field_segment \<Rightarrow> coord list \<Rightarrow> string \<Rightarrow> poly list" where
  "drawAtTime E seg shell timeStr =
     (case shadowVector E seg timeStr of
        None \<Rightarrow> []
      | Some (len, brg) \<Rightarrow>
          (let basePoly = [shell];
               shiftedRing = map (\<lambda>c. destination E c len brg) shell;
               roofShadowPoly = [shiftedRing]
           in basePoly # roofShadowPoly # drawQuads shell shiftedRing 0))"

subsection \<open>Interval aggregation\<close>

text \<open>
  The inner loop over the polygons of one sample: \<open>agg = agg ? union(agg, p) : p\<close> inside
  a \<open>try\<close> whose \<open>catch\<close> is empty.
\<close>

definition unionStep :: "collab \<Rightarrow> feature option \<Rightarrow> poly \<Rightarrow> feature option" where
  "unionStep E agg p =
     (case agg of
        None \<Rightarrow> Some (Polygon p)
      | Some a \<Rightarrow> (case union E a (Polygon p) of Throws \<Rightarrow> Some a | Returns r \<Rightarrow> r))"

fun unionLoop :: "collab \<Rightarrow> feature option \<Rightarrow> poly list \<Rightarrow> feature option" where
  "unionLoop E agg [] = agg"
| "unionLoop E agg (p # ps) = unionLoop E (unionStep E agg p) ps"

function aggLoop ::
  "collab \<Rightarrow> field_segment \<Rightarrow> coord list \<Rightarrow> int \<Rightarrow> int \<Rightarrow> feature option
     \<Rightarrow> feature option outcome" where
  "aggLoop E seg shell m minutesEnd agg =
     (if m \<le> minutesEnd
      then andThen (buildTurfPolysAtTime E seg shell (timeString m))
             (\<lambda>polys. aggLoop E seg shell (m + 1) minutesEnd (unionLoop E agg polys))
      else Returns agg)"
  by pat_completeness auto
termination
  by (relation "measure (\<lambda>(E, seg, shell, m, minutesEnd, agg). nat (minutesEnd + 1 - m))") auto

declare aggLoop.simps [simp del]

function drawLoop ::
  "collab \<Rightarrow> field_segment \<Rightarrow> coord list \<Rightarrow> int \<Rightarrow> int \<Rightarrow> poly list" where
  "drawLoop E seg shell m minutesEnd =
     (if m \<le> minutesEnd
      then drawAtTime E seg shell (timeString m) @ drawLoop E seg shell (m + 1) minutesEnd
      else [])"
  by pat_completeness auto
termination
  by (relation "measure (\<lambda>(E, seg, shell, m, minutesEnd). nat (minutesEnd + 1 - m))") auto

declare drawLoop.simps [simp del]

text \<open>The aggregate as it is drawn: one polygon, or one per part of a multi-polygon.\<close>

fun drawAggregate :: "feature option \<Rightarrow> poly list" where
  "drawAggregate None = []"
| "drawAggregate (Some (Polygon rings)) = [rings]"
| "drawAggregate (Some (MultiPolygon parts)) = parts"

text \<open>
  The body of the shadow effect for one segment: the aggregate of the window, then the
  shadows of every sampled minute. It throws when a sample's polygons cannot be built.
\<close>

definition aggregateOf :: "collab \<Rightarrow> field_segment \<Rightarrow> coord list \<Rightarrow> feature option outcome" where
  "aggregateOf E seg shell =
     (let (minutesStart, minutesEnd) = window seg
      in aggLoop E seg shell minutesStart minutesEnd None)"

definition segmentShadows :: "collab \<Rightarrow> field_segment \<Rightarrow> poly list outcome" where
  "segmentShadows E seg =
     (case geometry seg of
        None \<Rightarrow> Returns []
      | Some shell \<Rightarrow>
          (let (minutesStart, minutesEnd) = window seg
           in andThen (aggLoop E seg shell minutesStart minutesEnd None)
                (\<lambda>agg. Returns (drawAggregate agg @ drawLoop E seg shell minutesStart minutesEnd))))"

section \<open>Module layout packer\<close>

definition toTurfPolygon :: "collab \<Rightarrow> coord list \<Rightarrow> poly outcome" where
  "toTurfPolygon E shell =
     polygon E [if shell \<noteq> [] \<and> hd shell \<noteq> last shell then shell @ [hd shell] else shell]"

text \<open>Feet to meters, 0 for a number that is not finite.\<close>

definition meters :: "jsnum \<Rightarrow> jsnum" where
  "meters ft = (if isFinite ft then jmul ft (Num FT) else Num 0)"

subsection \<open>Buildable region\<close>

text \<open>
  The loop over the pieces of a multi-polygon, with its running maximum \<open>maxA\<close> (which
  starts at \<open>-Infinity\<close>) and the best piece so far.
\<close>

fun largestPiece :: "collab \<Rightarrow> poly list \<Rightarrow> jsnum \<Rightarrow> poly option \<Rightarrow> poly option outcome" where
  "largestPiece E [] maxA best = Returns best"
| "largestPiece E (coords # rest) maxA best =
     andThen (polygon E coords)
       (\<lambda>p. let a = Num (area E p)
            in if jlt maxA a then largestPiece E rest a (Some p)
               else largestPiece E rest maxA best)"

definition inset :: "collab \<Rightarrow> field_segment \<Rightarrow> poly \<Rightarrow> poly" where
  "inset E seg turfPoly =
     (let sb = meters (orZero (orElse (setback seg) (Num 0)))
      in if \<not> isFinite sb \<or> jle sb (Num 0) then turfPoly
         else (case buffer E turfPoly (jneg sb) of
                 Throws \<Rightarrow> turfPoly
               | Returns None \<Rightarrow> turfPoly
               | Returns (Some (MultiPolygon parts)) \<Rightarrow>
                   (case largestPiece E parts NegInf None of
                      Throws \<Rightarrow> turfPoly
                    | Returns None \<Rightarrow> turfPoly
                    | Returns (Some best) \<Rightarrow> best)
               | Returns (Some (Polygon buff)) \<Rightarrow> buff))"

subsection \<open>Frame sizes and steps\<close>

definition isPortrait :: "field_segment \<Rightarrow> bool" where
  "isPortrait seg = (orElse (defaultOrientation seg) Landscape = Portrait)"

text \<open>Module dimensions \<open>(width, height)\<close> in meters are finite numbers.\<close>

definition moduleW :: "field_segment \<Rightarrow> real \<times> real \<Rightarrow> jsnum" where
  "moduleW seg dims = Num (max 0 (if isPortrait seg then snd dims else fst dims))"

definition moduleH :: "field_segment \<Rightarrow> real \<times> real \<Rightarrow> jsnum" where
  "moduleH seg dims = Num (max 0 (if isPortrait seg then fst dims else snd dims))"

definition moduleSpacingM :: "field_segment \<Rightarrow> jsnum" where
  "moduleSpacingM seg =
     (let msFtRaw = orElse (moduleSpacing seg) NaN;
          msFt = (if isFinite msFtRaw \<and> jlt (Num 0) msFtRaw then msFtRaw else Num 0.02)
      in jmax (Num 0) (meters msFt))"

definition frameSpacingM :: "field_segment \<Rightarrow> jsnum" where
  "frameSpacingM seg = jmax (Num 0) (meters (orZero (orElse (frameSpacing seg) (Num 0))))"

definition rowSpacingM :: "field_segment \<Rightarrow> jsnum" where
  "rowSpacingM seg = jmax (Num 0) (meters (orZero (orElse (rowSpacing seg) (Num 0))))"

definition sizeWide :: "field_segment \<Rightarrow> jsnum" where
  "sizeWide seg = jmax (Num 1) (jfloor (orElse (frameSizeWide seg) (Num 1)))"

definition sizeUp :: "field_segment \<Rightarrow> jsnum" where
  "sizeUp seg = jmax (Num 1) (jfloor (orElse (frameSizeUp seg) (Num 1)))"

definition moduleAz :: "field_segment \<Rightarrow> jsnum" where
  "moduleAz seg =
     jmax (Num 0)
       (jmod (jadd (jmod (orElse (moduleAzimuth seg) (Num 0)) (Num 360)) (Num 360)) (Num 360))"

definition bearingYOf :: "field_segment \<Rightarrow> jsnum" where
  "bearingYOf seg = moduleAz seg"

definition bearingXOf :: "field_segment \<Rightarrow> jsnum" where
  "bearingXOf seg = jmod (jadd (moduleAz seg) (Num 90)) (Num 360)"

definition frameW :: "field_segment \<Rightarrow> real \<times> real \<Rightarrow> jsnum" where
  "frameW seg dims =
     jadd (jmul (sizeWide seg) (moduleW seg dims))
          (jmul (jsub (sizeWide seg) (Num 1)) (moduleSpacingM seg))"

definition frameH :: "field_segment \<Rightarrow> real \<times> real \<Rightarrow> jsnum" where
  "frameH seg dims =
     jadd (jmul (sizeUp seg) (moduleH seg dims))
          (jmul (jsub (sizeUp seg) (Num 1)) (moduleSpacingM seg))"

definition stepX :: "field_segment \<Rightarrow> real \<times> real \<Rightarrow> jsnum" where
  "stepX seg dims = jadd (frameW seg dims) (frameSpacingM seg)"

definition stepY :: "field_segment \<Rightarrow> real \<times> real \<Rightarrow> jsnum" where
  "stepY seg dims = jadd (frameH seg dims) (rowSpacingM seg)"

subsection \<open>Oriented extents\<close>

definition ringCoordsOf :: "poly \<Rightarrow> coord list" where
  "ringCoordsOf region = (case region of [] \<Rightarrow> [] | ring # holes \<Rightarrow> ring)"

text \<open>
  The loop over the boundary vertices, with its four running extremes
  \<open>(minProjX, maxProjX, minProjY, maxProjY)\<close>. The distance is asked without units.
\<close>

fun projLoop ::
  "collab \<Rightarrow> coord \<Rightarrow> jsnum \<Rightarrow> jsnum \<Rightarrow> coord list
     \<Rightarrow> jsnum \<times> jsnum \<times> jsnum \<times> jsnum \<Rightarrow> jsnum \<times> jsnum \<times> jsnum \<times> jsnum" where
  "projLoop E origin bearingX bearingY [] ext = ext"
| "projLoop E origin bearingX bearingY (p # ps) (minProjX, maxProjX, minProjY, maxProjY) =
     (let d = Num (distance E Kilometers origin p);
          br = Num (bearing E origin p);
          toRad = Num (pi / 180);
          dx = jmul d (jcos (jmul (jsub br bearingX) toRad));
          dy = jmul d (jcos (jmul (jsub br bearingY) toRad))
      in projLoop E origin bearingX bearingY ps
           (if jlt dx minProjX then dx else minProjX,
            if jlt maxProjX dx then dx else maxProjX,
            if jlt dy minProjY then dy else minProjY,
            if jlt maxProjY dy then dy else maxProjY))"

definition extents :: "collab \<Rightarrow> field_segment \<Rightarrow> poly \<Rightarrow> jsnum \<times> jsnum \<times> jsnum \<times> jsnum" where
  "extents E seg region =
     projLoop E (centroid E region) (bearingXOf seg) (bearingYOf seg) (ringCoordsOf region)
       (PosInf, NegInf, PosInf, NegInf)"

definition widthM :: "collab \<Rightarrow> field_segment \<Rightarrow> poly \<Rightarrow> jsnum" where
  "widthM E seg region =
     (case extents E seg region of
        (minProjX, maxProjX, minProjY, maxProjY) \<Rightarrow> jmax (Num 0) (jsub maxProjX minProjX))"

definition heightM :: "collab \<Rightarrow> field_segment \<Rightarrow> poly \<Rightarrow> jsnum" where
  "heightM E seg region =
     (case extents E seg region of
        (minProjX, maxProjX, minProjY, maxProjY) \<Rightarrow> jmax (Num 0) (jsub maxProjY minProjY))"

definition shift :: "collab \<Rightarrow> coord \<Rightarrow> jsnum \<Rightarrow> jsnum \<Rightarrow> coord" where
  "shift E pt d brg =
     destination E pt (jabs d)
       (if jle (Num 0) d then brg else jmod (jadd brg (Num 180)) (Num 360))"

definition southWest :: "collab \<Rightarrow> field_segment \<Rightarrow> poly \<Rightarrow> coord" where
  "southWest E seg region =
     (case extents E seg region of
        (minProjX, maxProjX, minProjY, maxProjY) \<Rightarrow>
          shift E (shift E (centroid E region) minProjY (bearingYOf seg)) minProjX (bearingXOf seg))"

subsection \<open>Alignment\<close>

definition leftoverX :: "collab \<Rightarrow> field_segment \<Rightarrow> real \<times> real \<Rightarrow> poly \<Rightarrow> jsnum" where
  "leftoverX E seg dims region = jmax (Num 0) (jsub (widthM E seg region) (frameW seg dims))"

definition marginX :: "collab \<Rightarrow> field_segment \<Rightarrow> real \<times> real \<Rightarrow> poly \<Rightarrow> jsnum" where
  "marginX E seg dims region =
     (let align = orElse (alignment seg) AlignCenter
      in if align = AlignCenter
         then jdiv (jmod (leftoverX E seg dims region) (stepX seg dims)) (Num 2)
         else if align = AlignRight then jmod (leftoverX E seg dims region) (stepX seg dims)
         else if align = AlignJustify
         then jdiv (jmod (leftoverX E seg dims region) (stepX seg dims)) (Num 2)
         else Num 0)"

definition startNorth :: "field_segment \<Rightarrow> real \<times> real \<Rightarrow> jsnum" where
  "startNorth seg dims = jdiv (frameH seg dims) (Num 2)"

definition startEast :: "collab \<Rightarrow> field_segment \<Rightarrow> real \<times> real \<Rightarrow> poly \<Rightarrow> jsnum" where
  "startEast E seg dims region =
     jadd (marginX E seg dims region) (jdiv (frameW seg dims) (Num 2))"

subsection \<open>Tiling\<close>

definition buildRotatedRect ::
  "collab \<Rightarrow> coord \<Rightarrow> jsnum \<Rightarrow> jsnum \<Rightarrow> jsnum \<Rightarrow> jsnum \<Rightarrow> poly outcome" where
  "buildRotatedRect E center halfW halfH bearingX bearingY =
     (let minusX = destination E center halfW (jmod (jadd bearingX (Num 180)) (Num 360));
          plusX = destination E center halfW bearingX;
          tl = destination E minusX halfH bearingY;
          bl = destination E minusX halfH (jmod (jadd bearingY (Num 180)) (Num 360));
          tr = destination E plusX halfH bearingY;
          br = destination E plusX halfH (jmod (jadd bearingY (Num 180)) (Num 360))
      in polygon E [[tl, tr, br, bl, tl]])"

text \<open>
  A loop \<open>for (v = start; v <= bound; v += step)\<close> and a loop
  \<open>for (i = 0; i < bound; i++)\<close>, each collecting what its body emits. A body that throws
  ends the loop with the exception; \<open>None\<close> is a loop that never ends.
\<close>

partial_function (option) forStep ::
  "(jsnum \<Rightarrow> 'a list outcome option) \<Rightarrow> jsnum \<Rightarrow> jsnum \<Rightarrow> jsnum \<Rightarrow> 'a list
     \<Rightarrow> 'a list outcome option" where
  "forStep body bound step v acc =
     (if jle v bound
      then (case body v of
              None \<Rightarrow> None
            | Some Throws \<Rightarrow> Some Throws
            | Some (Returns out) \<Rightarrow> forStep body bound step (jadd v step) (acc @ out))
      else Some (Returns acc))"

partial_function (option) forCount ::
  "(nat \<Rightarrow> 'a list outcome option) \<Rightarrow> jsnum \<Rightarrow> nat \<Rightarrow> 'a list \<Rightarrow> 'a list outcome option" where
  "forCount body bound i acc =
     (if jlt (Num (real i)) bound
      then (case body i of
              None \<Rightarrow> None
            | Some Throws \<Rightarrow> Some Throws
            | Some (Returns out) \<Rightarrow> forCount body bound (i + 1) (acc @ out))
      else Some (Returns acc))"

text \<open>
  The innermost body, for row \<open>r\<close> and column \<open>c\<close> of a frame: the module's rectangle
  is built, and its ring is emitted when the rectangle is within the buildable region. The
  test and the emission sit in a \<open>try\<close> whose \<open>catch\<close> is empty; building the rectangle
  does not.
\<close>

definition placeModule ::
  "collab \<Rightarrow> field_segment \<Rightarrow> real \<times> real \<Rightarrow> poly \<Rightarrow> coord \<Rightarrow> nat \<Rightarrow> nat
     \<Rightarrow> coord list list outcome" where
  "placeModule E seg dims region frameTopLeft r c =
     (let xIn = jadd (jmul (Num (real c)) (jadd (moduleW seg dims) (moduleSpacingM seg)))
                     (jdiv (moduleW seg dims) (Num 2));
          yIn = jadd (jmul (Num (real r)) (jadd (moduleH seg dims) (moduleSpacingM seg)))
                     (jdiv (moduleH seg dims) (Num 2));
          alongX = destination E frameTopLeft xIn (bearingXOf seg);
          center = destination E alongX yIn (jmod (jadd (bearingYOf seg) (Num 180)) (Num 360))
      in andThen (buildRotatedRect E center (jdiv (moduleW seg dims) (Num 2))
                    (jdiv (moduleH seg dims) (Num 2)) (bearingXOf seg) (bearingYOf seg))
           (\<lambda>rect. Returns
              (case booleanWithin E rect region of
                 Returns True \<Rightarrow> (case rect of [] \<Rightarrow> [] | ring # holes \<Rightarrow> [ring])
               | Returns False \<Rightarrow> []
               | Throws \<Rightarrow> [])))"

definition placeFrame ::
  "collab \<Rightarrow> field_segment \<Rightarrow> real \<times> real \<Rightarrow> poly \<Rightarrow> coord \<Rightarrow> jsnum
     \<Rightarrow> coord list list outcome option" where
  "placeFrame E seg dims region frameRowBase xOff =
     (let frameCenter = destination E frameRowBase xOff (bearingXOf seg);
          frameTopLeft =
            destination E
              (destination E frameCenter (jdiv (frameW seg dims) (Num 2))
                 (jmod (jadd (bearingXOf seg) (Num 180)) (Num 360)))
              (jdiv (frameH seg dims) (Num 2)) (bearingYOf seg)
      in forCount
           (\<lambda>r. forCount (\<lambda>c. Some (placeModule E seg dims region frameTopLeft r c))
                  (sizeWide seg) 0 [])
           (sizeUp seg) 0 [])"

definition placeRow ::
  "collab \<Rightarrow> field_segment \<Rightarrow> real \<times> real \<Rightarrow> poly \<Rightarrow> jsnum
     \<Rightarrow> coord list list outcome option" where
  "placeRow E seg dims region yOff =
     (let frameRowBase = destination E (southWest E seg region) yOff (bearingYOf seg)
      in forStep (placeFrame E seg dims region frameRowBase)
           (jadd (jsub (widthM E seg region) (jdiv (frameW seg dims) (Num 2))) (Num (1 / 1000000)))
           (stepX seg dims) (startEast E seg dims region) [])"

definition packModules ::
  "collab \<Rightarrow> field_segment \<Rightarrow> real \<times> real \<Rightarrow> poly \<Rightarrow> coord list list outcome option" where
  "packModules E seg dims region =
     forStep (placeRow E seg dims region)
       (jadd (jsub (heightM E seg region) (jdiv (frameH seg dims) (Num 2))) (Num (1 / 1000000)))
       (stepY seg dims) (startNorth seg dims) []"

text \<open>
  The body of the layout effect for one segment: the rings of the module rectangles added
  to the modules layer. \<open>moduleDims\<close> is the cache of module dimensions.
\<close>

definition layoutModules ::
  "collab \<Rightarrow> (string \<rightharpoonup> real \<times> real) \<Rightarrow> field_segment \<Rightarrow> coord list list outcome option" where
  "layoutModules E moduleDims seg =
     (case geometry seg of
        None \<Rightarrow> Some (Returns [])
      | Some shell \<Rightarrow>
          (case toTurfPolygon E shell of
             Throws \<Rightarrow> Some Throws
           | Returns turfPoly \<Rightarrow>
               (case module seg of
                  None \<Rightarrow> Some (Returns [])
                | Some moduleId \<Rightarrow>
                    if moduleId = [] then Some (Returns [])
                    else (case moduleDims moduleId of
                            None \<Rightarrow> Some (Returns [])
                          | Some dims \<Rightarrow> packModules E seg dims (inset E seg turfPoly)))))"

section \<open>Drawing: snap to the first vertex\<close>

datatype EditorTool = ToolNone | ToolDraw | ToolEdit | ToolDelete

datatype symbol = DefaultSymbol | ClosingSymbol

datatype ghost_symbol = DefaultGhost | SnapGhost



text \<open>
  The state the handler keeps in its refs, and what it does to the draw tool: the symbol it
  sets, the coordinates it writes back to the geometry (\<open>setCoords\<close>, \<open>None\<close> when the
  move wrote nothing), and how many times it has called \<open>endDraw\<close>.
\<close>

record editor =
  activeTool :: EditorTool
  toolsReady :: bool
  ghostMarker :: "coord option"
  ghostSymbol :: ghost_symbol
  drawSymbol :: symbol
  startMarker :: "coord option"
  closingSnapActive :: bool
  autoClosing :: bool
  closeHint :: "coord option"
  setCoords :: "coord list option"
  endDrawCalls :: nat



text \<open>The magnetic snap and the latch.\<close>

definition snapAndClose :: "bool \<Rightarrow> coord list \<Rightarrow> editor \<Rightarrow> editor" where
  "snapAndClose closing coords st =
     (if closing \<and> length coords > 2
      then (let startCoord = (case startMarker st of Some c \<Rightarrow> c | None \<Rightarrow> hd coords);
                st1 = st\<lparr>ghostMarker := (case ghostMarker st of
                                              None \<Rightarrow> None | Some g \<Rightarrow> Some startCoord),
                         setCoords := Some (coords[length coords - 1 := startCoord])\<rparr>
            in if \<not> autoClosing st1
               then st1\<lparr>autoClosing := True, endDrawCalls := endDrawCalls st1 + 1\<rparr>
               else st1)
      else if \<not> closing then st\<lparr>autoClosing := False\<rparr>
      else st)"




section \<open>Deleting a segment\<close>

text \<open>
  The local state of the editor, and the reply of the segment store to a delete: the call
  returns an object whose \<open>error\<close> is set or not, or the awaited call rejects.
\<close>

record local_state =
  fieldSegments :: "field_segment list"
  selectedSegmentId :: "string option"

text \<open>The state right after the optimistic removal, while the store is being called.\<close>

definition removeLocally :: "string \<Rightarrow> local_state \<Rightarrow> local_state" where
  "removeLocally segmentId st =
     st\<lparr>fieldSegments := filter (\<lambda>s. seg_id s \<noteq> segmentId) (fieldSegments st),
        selectedSegmentId := None\<rparr>"

definition handleDeleteSegment ::
  "(string \<Rightarrow> string option outcome) \<Rightarrow> string \<Rightarrow> local_state \<Rightarrow> local_state" where
  "handleDeleteSegment storeDelete segmentId st =
     (let originalSegments = fieldSegments st;
          st1 = removeLocally segmentId st
      in case storeDelete segmentId of
           Throws \<Rightarrow> st1
         | Returns None \<Rightarrow> st1
         | Returns (Some error) \<Rightarrow> st1\<lparr>fieldSegments := originalSegments\<rparr>)"

section \<open>Descriptions to compare with, and sample data\<close>

text \<open>The edges of a ring, the closing edge from the last vertex to the first included.\<close>

definition ringEdges :: "coord list \<Rightarrow> (coord \<times> coord) list" where
  "ringEdges shell = zip shell (rotate1 shell)"

text \<open>
  The panels the wall builder is described to emit for one edge: none for an edge whose
  endpoints coincide, else the wall from the ground up to \<open>z\<close> and, when \<open>paraZ > 0\<close>,
  the parapet strip from \<open>z\<close> up to \<open>z + paraZ\<close>.
\<close>

definition edgePanels :: "jsnum \<Rightarrow> jsnum \<Rightarrow> coord \<times> coord \<Rightarrow> coord3 list list" where
  "edgePanels z paraZ e =
     (case e of (a, b) \<Rightarrow>
        if a = b then []
        else [(fst a, snd a, z), (fst b, snd b, z), (fst b, snd b, Num 0), (fst a, snd a, Num 0),
              (fst a, snd a, z)] #
             (if jlt (Num 0) paraZ
              then [[(fst a, snd a, jadd z paraZ), (fst b, snd b, jadd z paraZ), (fst b, snd b, z),
                     (fst a, snd a, z), (fst a, snd a, jadd z paraZ)]]
              else []))"

text \<open>
  A triangular segment whose ring repeats one vertex, with a roof 10 ft up and a parapet of
  2 ft, analysed from 10:00 to 10:01.
\<close>

definition demoShell :: "coord list" where
  "demoShell = [(0, 0), (4, 0), (4, 0), (0, 3)]"

definition demoSegment :: field_segment where
  "demoSegment =
     \<lparr>seg_id = ''s1'',
      geometry = Some demoShell,
      surfaceHeight = Some (Num 10), surface_height = None,
      rackingHeight = Some (Num 0), racking_height = None,
      parapetHeight = Some (Num 2), parapet_height = None,
      analysisDate = ''2026-12-22'', timeOfDay = ''10:00'',
      startTime = ''10:00'', endTime = ''10:01'',
      module = None, defaultOrientation = Some Landscape,
      frameSizeUp = Some (Num 1), frameSizeWide = Some (Num 1),
      rowSpacing = Some (Num 2), moduleSpacing = Some (Num 0.041),
      frameSpacing = Some (Num 0), moduleAzimuth = Some (Num 180),
      setback = Some (Num 4), alignment = Some AlignCenter\<rparr>"

text \<open>
  The polygons whose union step did not throw, in the order of the loop, and the union of
  a list of polygons in which a union that throws is an error instead of a step that is
  skipped.
\<close>

fun succeeded :: "collab \<Rightarrow> feature option \<Rightarrow> poly list \<Rightarrow> poly list" where
  "succeeded E agg [] = []"
| "succeeded E agg (p # ps) =
     (case agg of
        None \<Rightarrow> p # succeeded E (Some (Polygon p)) ps
      | Some a \<Rightarrow>
          (case union E a (Polygon p) of
             Throws \<Rightarrow> succeeded E agg ps
           | Returns r \<Rightarrow> p # succeeded E r ps))"

fun unionAll :: "collab \<Rightarrow> feature option \<Rightarrow> poly list \<Rightarrow> feature option outcome" where
  "unionAll E agg [] = Returns agg"
| "unionAll E agg (p # ps) =
     (case agg of
        None \<Rightarrow> unionAll E (Some (Polygon p)) ps
      | Some a \<Rightarrow>
          (case union E a (Polygon p) of
             Throws \<Rightarrow> Throws
           | Returns r \<Rightarrow> unionAll E r ps))"

text \<open>The polygons of all the samples of the window, in the order of the loop.\<close>

definition samplePolys :: "collab \<Rightarrow> field_segment \<Rightarrow> coord list \<Rightarrow> poly list" where
  "samplePolys E seg shell =
     concat (map (\<lambda>k. case buildTurfPolysAtTime E seg shell (timeString k) of
                          Throws \<Rightarrow> []
                        | Returns polys \<Rightarrow> polys)
               [fst (window seg)..snd (window seg)])"


text \<open>
  The shape of the running extremes of the projection loop: a minimum is \<open>+Infinity\<close>
  or finite, a maximum is \<open>-Infinity\<close> or finite.
\<close>

definition lowShape :: "jsnum \<Rightarrow> bool" where
  "lowShape x = (x = PosInf \<or> (\<exists>a. x = Num a))"

definition highShape :: "jsnum \<Rightarrow> bool" where
  "highShape x = (x = NegInf \<or> (\<exists>a. x = Num a))"

text \<open>\<open>xs\<close> is \<open>ys\<close> with some elements left out.\<close>

fun isSubseq :: "'a list \<Rightarrow> 'a list \<Rightarrow> bool" where
  "isSubseq [] ys = True"
| "isSubseq (x # xs) [] = False"
| "isSubseq (x # xs) (y # ys) = ((x = y \<and> isSubseq xs ys) \<or> isSubseq (x # xs) ys)"

subsection \<open>A planar stand-in for the collaborators\<close>

text \<open>
  Sample collaborators on which the model can be run: moves, distances and bearings are
  those of the plane and are exact along the four cardinal directions; buffers, areas and
  containment are those of bounding boxes; a union collects the pieces and throws on a
  polygon with a repeated vertex; \<open>turf.polygon\<close> wants closed rings of four positions
  or more. The sun stands at 45 degrees due south at 10:00, its lookup fails at 10:01, and it
  is below the horizon at any other time.
\<close>

definition planarDestination :: "coord \<Rightarrow> jsnum \<Rightarrow> jsnum \<Rightarrow> coord" where
  "planarDestination c d brg =
     (case (d, brg) of
        (Num r, Num b) \<Rightarrow>
          if b = 0 then (fst c, snd c + r)
          else if b = 90 then (fst c + r, snd c)
          else if b = 180 then (fst c, snd c - r)
          else if b = 270 then (fst c - r, snd c)
          else c
      | _ \<Rightarrow> c)"

definition planarDistance :: "units \<Rightarrow> coord \<Rightarrow> coord \<Rightarrow> real" where
  "planarDistance u a b =
     (\<bar>fst a - fst b\<bar> + \<bar>snd a - snd b\<bar>) / (case u of Meters \<Rightarrow> 1 | Kilometers \<Rightarrow> 1000)"

definition planarBearing :: "coord \<Rightarrow> coord \<Rightarrow> real" where
  "planarBearing a b =
     (if fst a = fst b then (if snd a \<le> snd b then 0 else 180)
      else if fst a < fst b then 90 else - 90)"

definition boxOf :: "coord list \<Rightarrow> real \<times> real \<times> real \<times> real" where
  "boxOf ring =
     (foldr min (map fst ring) (fst (hd ring)), foldr min (map snd ring) (snd (hd ring)),
      foldr max (map fst ring) (fst (hd ring)), foldr max (map snd ring) (snd (hd ring)))"

definition boxRing :: "real \<times> real \<times> real \<times> real \<Rightarrow> coord list" where
  "boxRing b =
     (case b of (x0, y0, x1, y1) \<Rightarrow> [(x0, y0), (x1, y0), (x1, y1), (x0, y1), (x0, y0)])"

definition boxBuffer :: "poly \<Rightarrow> jsnum \<Rightarrow> feature option outcome" where
  "boxBuffer region d =
     (case (region, d) of
        (ring # holes, Num r) \<Rightarrow>
          (case boxOf ring of
             (x0, y0, x1, y1) \<Rightarrow>
               if x0 - r < x1 + r \<and> y0 - r < y1 + r
               then Returns (Some (Polygon [boxRing (x0 - r, y0 - r, x1 + r, y1 + r)]))
               else Returns None)
      | _ \<Rightarrow> Throws)"

definition boxArea :: "poly \<Rightarrow> real" where
  "boxArea region =
     (case region of
        [] \<Rightarrow> 0
      | ring # holes \<Rightarrow> (case boxOf ring of (x0, y0, x1, y1) \<Rightarrow> (x1 - x0) * (y1 - y0)))"

definition boxWithin :: "poly \<Rightarrow> poly \<Rightarrow> bool outcome" where
  "boxWithin inner outer =
     (case (inner, outer) of
        (ring # holes, oring # oholes) \<Rightarrow>
          (case boxOf oring of
             (x0, y0, x1, y1) \<Rightarrow>
               Returns (list_all (\<lambda>c. x0 \<le> fst c \<and> fst c \<le> x1 \<and> y0 \<le> snd c \<and> snd c \<le> y1) ring))
      | _ \<Rightarrow> Throws)"

definition vertexMean :: "poly \<Rightarrow> coord" where
  "vertexMean region =
     (case region of
        [] \<Rightarrow> (0, 0)
      | ring # holes \<Rightarrow>
          (sum_list (map fst (butlast ring)) / real (length (butlast ring)),
           sum_list (map snd (butlast ring)) / real (length (butlast ring))))"

fun partsOf :: "feature \<Rightarrow> poly list" where
  "partsOf (Polygon p) = [p]"
| "partsOf (MultiPolygon ps) = ps"

definition collectUnion :: "feature \<Rightarrow> feature \<Rightarrow> feature option outcome" where
  "collectUnion a b =
     (if list_all (list_all (\<lambda>ring. distinct (butlast ring))) (partsOf b)
      then Returns (Some (MultiPolygon (partsOf a @ partsOf b)))
      else Throws)"

definition planar :: collab where
  "planar =
     \<lparr>polygonOk = list_all (\<lambda>ring. 4 \<le> length ring \<and> hd ring = last ring),
      destination = planarDestination,
      union = collectUnion,
      buffer = boxBuffer,
      area = boxArea,
      booleanWithin = boxWithin,
      centroid = vertexMean,
      distance = planarDistance,
      bearing = planarBearing,
      getPosition = (\<lambda>dateStr timeStr.
         if timeStr = ''10:00'' then Returns (0, pi / 4)
         else if timeStr = ''10:01'' then Throws
         else Returns (0, - 1)),
      dec22ThisYear = ''2026-12-22''\<rparr>"

text \<open>
  A diamond-shaped field with a module of 3 m by 2 m and no setback, and a square of 10 m.
\<close>

definition diamond :: "coord list" where
  "diamond = [(2000, 0), (0, 2000), (- 2000, 0), (0, - 2000)]"

definition diamondPoly :: poly where
  "diamondPoly = [[(2000, 0), (0, 2000), (- 2000, 0), (0, - 2000), (2000, 0)]]"

definition demoField :: field_segment where
  "demoField =
     \<lparr>seg_id = ''s2'',
      geometry = Some diamond,
      surfaceHeight = Some (Num 0), surface_height = None,
      rackingHeight = Some (Num 0), racking_height = None,
      parapetHeight = None, parapet_height = None,
      analysisDate = [], timeOfDay = ''10:00'',
      startTime = ''10:00'', endTime = ''16:00'',
      module = Some ''m1'', defaultOrientation = Some Landscape,
      frameSizeUp = Some (Num 1), frameSizeWide = Some (Num 1),
      rowSpacing = Some (Num 2), moduleSpacing = Some (Num 0.041),
      frameSpacing = Some (Num 0), moduleAzimuth = Some (Num 0),
      setback = Some (Num 0), alignment = Some AlignCenter\<rparr>"

definition squarePoly :: poly where
  "squarePoly = [[(0, 0), (10, 0), (10, 10), (0, 10), (0, 0)]]"

definition demoDims :: "string \<rightharpoonup> real \<times> real" where
  "demoDims = [''m1'' \<mapsto> (3, 2)]"




text \<open>
  The shadow polygons of the sample segment at 10:00 on the planar stand-in: base, roof, and
  the four wall quads.
\<close>

definition demoPolys :: "poly list" where
  "demoPolys =
     [[[(0, 0), (4, 0), (4, 0), (0, 3), (0, 0)]],
      [[(0, 3.6576), (4, 3.6576), (4, 3.6576), (0, 6.6576), (0, 3.6576)]],
      [[(0, 0), (4, 0), (4, 3.6576), (0, 3.6576), (0, 0)]],
      [[(4, 0), (4, 0), (4, 3.6576), (4, 3.6576), (4, 0)]],
      [[(4, 0), (0, 3), (0, 6.6576), (4, 3.6576), (4, 0)]],
      [[(0, 3), (0, 0), (0, 3.6576), (0, 6.6576), (0, 3)]]]"

section \<open>The wall builder, edge by edge\<close>

lemma wallLoop_upt:
  "wallLoop shell z paraZ i = concat (map (wallsAt shell z paraZ) [i..<length shell])"
proof (induction shell z paraZ i rule: wallLoop.induct)
  case (1 shell z paraZ i)
  show ?case
  proof (cases "i < length shell")
    case True
    then have "[i..<length shell] = i # [i + 1..<length shell]"
      by (simp add: upt_conv_Cons)
    with True 1 show ?thesis by (subst wallLoop.simps) simp
  next
    case False
    then show ?thesis by (subst wallLoop.simps) simp
  qed
qed

lemma ringEdges_nth:
  "i < length shell \<Longrightarrow> ringEdges shell ! i = (shell ! i, shell ! ((i + 1) mod length shell))"
  by (simp add: ringEdges_def nth_rotate1)

lemma map_edges_upt:
  "map (\<lambda>i. f (shell ! i, shell ! ((i + 1) mod length shell))) [0..<length shell]
     = map f (ringEdges shell)"
proof -
  have len: "length (ringEdges shell) = length shell" by (simp add: ringEdges_def)
  have "map f (ringEdges shell) = map (\<lambda>i. f (ringEdges shell ! i)) [0..<length (ringEdges shell)]"
    by (rule nth_equalityI) simp_all
  also have "\<dots> = map (\<lambda>i. f (shell ! i, shell ! ((i + 1) mod length shell))) [0..<length shell]"
    unfolding len by (rule map_cong) (simp_all add: ringEdges_nth)
  finally show ?thesis by simp
qed

lemma wallsAt_edge:
  "wallsAt shell z paraZ i = edgePanels z paraZ (shell ! i, shell ! ((i + 1) mod length shell))"
  by (simp add: wallsAt_def edgePanels_def panel_def Let_def)

lemma wallsAt_map:
  "map (wallsAt shell z paraZ) [0..<length shell] = map (edgePanels z paraZ) (ringEdges shell)"
proof -
  have "wallsAt shell z paraZ
          = (\<lambda>i. edgePanels z paraZ (shell ! i, shell ! ((i + 1) mod length shell)))"
    by (rule ext) (rule wallsAt_edge)
  then show ?thesis by (simp only: map_edges_upt)
qed

text \<open>
  C5. For every segment, the walls are the panels of the ring's edges in order, the closing
  edge included: an edge with distinct endpoints gives the quad with corners
  \<open>(a,z), (b,z), (b,0), (a,0)\<close>, where \<open>z\<close> is the surface height in feet times 0.3048,
  followed, exactly when the parapet height in meters clamped to at least 0 is positive, by
  the quad from \<open>z\<close> to \<open>z + paraZ\<close>; an edge with coincident endpoints gives nothing.
\<close>

theorem walls_per_edge:
  "wallsOfSegment seg =
     (case geometry seg of
        None \<Rightarrow> []
      | Some shell \<Rightarrow>
          concat (map (edgePanels (jmul (surfaceFeet seg) (Num 0.3048))
                         (jmax (Num 0) (jmul (parapetFeetOf seg) (Num 0.3048))))
                    (ringEdges shell)))"
proof (cases "geometry seg")
  case None
  then show ?thesis by (simp add: wallsOfSegment_def)
next
  case (Some shell)
  show ?thesis
  proof (cases "length shell < 2")
    case True
    then have "shell = [] \<or> (\<exists>a. shell = [a])"
      by (cases shell) (auto simp: less_Suc_eq length_Suc_conv)
    then show ?thesis using Some
      by (auto simp: wallsOfSegment_def ringEdges_def edgePanels_def)
  next
    case False
    then show ?thesis using Some
      by (simp add: wallsOfSegment_def Let_def wallLoop_upt wallsAt_map FT_def)
  qed
qed

theorem walls_per_edge_witness:
  "wallsOfSegment demoSegment =
     [[(0, 0, Num 3.048), (4, 0, Num 3.048), (4, 0, Num 0), (0, 0, Num 0), (0, 0, Num 3.048)],
      [(0, 0, Num 3.6576), (4, 0, Num 3.6576), (4, 0, Num 3.048), (0, 0, Num 3.048),
       (0, 0, Num 3.6576)],
      [(4, 0, Num 3.048), (0, 3, Num 3.048), (0, 3, Num 0), (4, 0, Num 0), (4, 0, Num 3.048)],
      [(4, 0, Num 3.6576), (0, 3, Num 3.6576), (0, 3, Num 3.048), (4, 0, Num 3.048),
       (4, 0, Num 3.6576)],
      [(0, 3, Num 3.048), (0, 0, Num 3.048), (0, 0, Num 0), (0, 3, Num 0), (0, 3, Num 3.048)],
      [(0, 3, Num 3.6576), (0, 0, Num 3.6576), (0, 0, Num 3.048), (0, 3, Num 3.048),
       (0, 3, Num 3.6576)]]"
  using walls_per_edge [of demoSegment]
  by (simp add: demoSegment_def demoShell_def ringEdges_def edgePanels_def surfaceFeet_def
      parapetFeetOf_def jmax_def jlt_def)

section \<open>Deleting a segment: rollback\<close>

text \<open>
  C9. Deleting first removes the segment from the local list. When the store's delete
  returns an error, the local list is again exactly what it was before the delete; when it
  returns no error, the list is the one without the segment, which holds no segment of that
  id.
\<close>

theorem delete_rollback:
  "fieldSegments (removeLocally segmentId st)
     = filter (\<lambda>s. seg_id s \<noteq> segmentId) (fieldSegments st)
   \<and> (storeDelete segmentId = Returns (Some err)
        \<longrightarrow> fieldSegments (handleDeleteSegment storeDelete segmentId st) = fieldSegments st)
   \<and> (storeDelete segmentId = Returns None
        \<longrightarrow> fieldSegments (handleDeleteSegment storeDelete segmentId st)
              = filter (\<lambda>s. seg_id s \<noteq> segmentId) (fieldSegments st)
            \<and> segmentId \<notin> seg_id ` set (fieldSegments (handleDeleteSegment storeDelete segmentId st)))"
  by (auto simp: handleDeleteSegment_def removeLocally_def)

theorem delete_rollback_witness:
  "fieldSegments (handleDeleteSegment (\<lambda>i. Returns (Some ''denied'')) ''s1''
       \<lparr>fieldSegments = [demoSegment], selectedSegmentId = Some ''s1''\<rparr>) = [demoSegment]
   \<and> fieldSegments (handleDeleteSegment (\<lambda>i. Returns None) ''s1''
       \<lparr>fieldSegments = [demoSegment], selectedSegmentId = Some ''s1''\<rparr>) = []"
  using delete_rollback [of "''s1''" "\<lparr>fieldSegments = [demoSegment], selectedSegmentId = Some ''s1''\<rparr>"
      "\<lambda>i. Returns (Some ''denied'')" "''denied''"]
    delete_rollback [of "''s1''" "\<lparr>fieldSegments = [demoSegment], selectedSegmentId = Some ''s1''\<rparr>"
      "\<lambda>i. Returns None" "''denied''"]
  by (simp add: demoSegment_def)

section \<open>Shadows\<close>

lemma js_rem_nonneg:
  assumes "0 \<le> x" and "0 < y"
  shows "js_rem x y = x - y * of_int \<lfloor>x / y\<rfloor>" and "0 \<le> js_rem x y" and "js_rem x y < y"
proof -
  from assms have q: "0 \<le> x / y" by simp
  then show e: "js_rem x y = x - y * of_int \<lfloor>x / y\<rfloor>"
    by (simp add: js_rem_def js_trunc_def)
  have "of_int \<lfloor>x / y\<rfloor> \<le> x / y" by (rule of_int_floor_le)
  with assms have "y * of_int \<lfloor>x / y\<rfloor> \<le> y * (x / y)"
    by (intro mult_left_mono) simp_all
  with assms have "y * of_int \<lfloor>x / y\<rfloor> \<le> x" by simp
  with e show "0 \<le> js_rem x y" by simp
  have "x / y < of_int \<lfloor>x / y\<rfloor> + 1" by linarith
  with assms have "y * (x / y) < y * (of_int \<lfloor>x / y\<rfloor> + 1)"
    by (intro mult_strict_left_mono) simp_all
  with assms have "x < y * (of_int \<lfloor>x / y\<rfloor> + 1)" by simp
  with e show "js_rem x y < y" by (simp add: algebra_simps)
qed

lemma shadowBearing_range:
  assumes "- 3 * pi \<le> sunAz"
  shows "0 \<le> shadowBearing sunAz" and "shadowBearing sunAz < 360"
    and "\<exists>k::int. shadowBearing sunAz = sunAz * 180 / pi + 360 * of_int k"
proof -
  let ?d = "sunAz * 180 / pi"
  have "- 540 \<le> ?d"
  proof -
    have "- 3 * pi * 180 \<le> sunAz * 180" using assms by simp
    then have "(- 3 * pi * 180) / pi \<le> sunAz * 180 / pi"
      by (rule divide_right_mono) simp
    then show ?thesis by simp
  qed
  then have x0: "0 \<le> ?d + 180 + 360" by simp
  let ?n = "js_rem (?d + 180 + 360) 360"
  have n: "?n = ?d + 180 + 360 - 360 * of_int \<lfloor>(?d + 180 + 360) / 360\<rfloor>" "0 \<le> ?n"
    using js_rem_nonneg[OF x0, of 360] by simp_all
  then have y0: "0 \<le> ?n + 180" by simp
  have b: "shadowBearing sunAz = js_rem (?n + 180) 360"
    by (simp add: shadowBearing_def Let_def)
  show "0 \<le> shadowBearing sunAz" "shadowBearing sunAz < 360"
    using js_rem_nonneg[OF y0, of 360] b by simp_all
  define k1 where "k1 = \<lfloor>(?d + 180 + 360) / 360\<rfloor>"
  define k2 where "k2 = \<lfloor>(?n + 180) / 360\<rfloor>"
  have n1: "?n = ?d + 180 + 360 - 360 * of_int k1" using n(1) by (simp add: k1_def)
  have "shadowBearing sunAz = ?n + 180 - 360 * of_int k2"
    using js_rem_nonneg(1)[OF y0, of 360] b by (simp add: k2_def)
  also have "\<dots> = ?d + 360 * of_int (2 - k1 - k2)"
    unfolding n1 by (simp add: algebra_simps)
  finally show "\<exists>k::int. shadowBearing sunAz = sunAz * 180 / pi + 360 * of_int k"
    by blast
qed

lemma segShadowLen_finite:
  assumes "0 < h" and "sin sunAlt \<noteq> 0"
  shows "segShadowLen (Num h) sunAlt = Num (max 0 (min 500 (h / tan sunAlt)))"
proof (cases "cos sunAlt = 0")
  case True
  then show ?thesis
    by (simp add: segShadowLen_def jtan_def jmin_def jmax_def tan_def)
next
  case False
  with assms show ?thesis
    by (simp add: segShadowLen_def jtan_def jmin_def jmax_def tan_def min_def max_def)
qed

lemma drawQuads_upt:
  "drawQuads shell shiftedRing i = map (\<lambda>i. [wallQuad shell shiftedRing i]) [i..<length shell]"
proof (induction shell shiftedRing i rule: drawQuads.induct)
  case (1 shell shiftedRing i)
  show ?case
  proof (cases "i < length shell")
    case True
    then have "[i..<length shell] = i # [i + 1..<length shell]"
      by (simp add: upt_conv_Cons)
    with True 1 show ?thesis by (subst drawQuads.simps) simp
  next
    case False
    then show ?thesis by (subst drawQuads.simps) simp
  qed
qed

lemma segHeightM_finite:
  assumes "surfaceFeet seg = Num f" and "rackingFeetOf seg = Num r" and "parapetFeetOf seg = Num p"
  shows "segHeightM seg = Num ((f + r + p) * 0.3048)"
  using assms by (simp add: segHeightM_def FT_def)

lemma sunAt_Returns:
  "getPosition E (orStr (analysisDate seg) (dec22ThisYear E)) timeStr = Returns (az, alt)
     \<Longrightarrow> sunAt E seg timeStr = (az, alt)"
  by (simp add: sunAt_def)

lemma unionLoop_append:
  "unionLoop E agg (xs @ ys) = unionLoop E (unionLoop E agg xs) ys"
  by (induction xs arbitrary: agg) simp_all

lemma unionAll_succeeded:
  "unionAll E agg (succeeded E agg ps) = Returns (unionLoop E agg ps)"
proof (induction ps arbitrary: agg)
  case Nil
  show ?case by simp
next
  case (Cons p ps)
  show ?case
  proof (cases agg)
    case None
    then show ?thesis using Cons[of "Some (Polygon p)"] by (simp add: unionStep_def)
  next
    case (Some a)
    show ?thesis
    proof (cases "union E a (Polygon p)")
      case Throws
      then show ?thesis using Some Cons[of agg] by (simp add: unionStep_def)
    next
      case (Returns r)
      then show ?thesis using Some Cons[of r] by (simp add: unionStep_def)
    qed
  qed
qed

lemma isSubseq_Cons: "isSubseq xs ys \<Longrightarrow> isSubseq xs (y # ys)"
  by (cases xs) simp_all

lemma succeeded_isSubseq: "isSubseq (succeeded E agg ps) ps"
  by (induction ps arbitrary: agg) (auto split: option.splits outcome.splits intro: isSubseq_Cons)

lemma aggLoop_all:
  "(\<And>k. m \<le> k \<Longrightarrow> k \<le> hi \<Longrightarrow>
        buildTurfPolysAtTime E seg shell (timeString k) = Returns (polysAt k))
   \<Longrightarrow> aggLoop E seg shell m hi agg
         = Returns (unionLoop E agg (concat (map polysAt [m..hi])))"
proof (induction E seg shell m hi agg rule: aggLoop.induct)
  case (1 E seg shell m minutesEnd agg)
  show ?case
  proof (cases "m \<le> minutesEnd")
    case True
    have b: "buildTurfPolysAtTime E seg shell (timeString m) = Returns (polysAt m)"
      using 1(2)[of m] True by simp
    have "aggLoop E seg shell (m + 1) minutesEnd (unionLoop E agg (polysAt m))
            = Returns (unionLoop E (unionLoop E agg (polysAt m))
                         (concat (map polysAt [m + 1..minutesEnd])))"
      using 1(1)[OF True, of "polysAt m"] 1(2) by simp
    then show ?thesis using True b
      by (subst aggLoop.simps) (simp add: upto_rec1[of m minutesEnd] unionLoop_append)
  next
    case False
    then show ?thesis by (subst aggLoop.simps) simp
  qed
qed

lemma aggLoop_throws:
  "m \<le> k \<Longrightarrow> k \<le> hi \<Longrightarrow> buildTurfPolysAtTime E seg shell (timeString k) = Throws
   \<Longrightarrow> aggLoop E seg shell m hi agg = Throws"
proof (induction E seg shell m hi agg rule: aggLoop.induct)
  case (1 E seg shell m minutesEnd agg)
  from 1(2,3) have le: "m \<le> minutesEnd" by simp
  show ?case
  proof (cases "buildTurfPolysAtTime E seg shell (timeString m)")
    case Throws
    then show ?thesis using le by (subst aggLoop.simps) simp
  next
    case (Returns polys)
    with 1(4) have "m \<noteq> k" by auto
    with 1(2) have "m + 1 \<le> k" by simp
    from 1(1)[OF le this 1(3) 1(4)] show ?thesis
      using le Returns by (subst aggLoop.simps) simp
  qed
qed

lemma drawLoop_upto:
  "drawLoop E seg shell m hi = concat (map (\<lambda>k. drawAtTime E seg shell (timeString k)) [m..hi])"
proof (induction E seg shell m hi rule: drawLoop.induct)
  case (1 E seg shell m minutesEnd)
  show ?case
  proof (cases "m \<le> minutesEnd")
    case True
    with 1 show ?thesis
      by (subst drawLoop.simps) (simp add: upto_rec1[of m minutesEnd])
  next
    case False
    then show ?thesis by (subst drawLoop.simps) simp
  qed
qed

lemma orStr_nonempty: "b \<noteq> [] \<Longrightarrow> orStr a b \<noteq> []"
  by (simp add: orStr_def)

lemma orStr_idem: "a \<noteq> [] \<Longrightarrow> orStr a b = a"
  by (simp add: orStr_def)

lemma window_min_max:
  "window seg = (min (parseHHmmToMinutes (getStartTime seg)) (parseHHmmToMinutes (getEndTime seg)),
                 max (parseHHmmToMinutes (getStartTime seg)) (parseHHmmToMinutes (getEndTime seg)))"
proof -
  have s: "getStartTime seg \<noteq> []" by (simp add: getStartTime_def orStr_def)
  have e: "getEndTime seg \<noteq> []" by (simp add: getEndTime_def orStr_def)
  show ?thesis using s e by (auto simp: window_def Let_def orStr_idem min_def max_def)
qed

lemma concat_map_Nil: "concat (map (\<lambda>k. []) xs) = []"
  by (induction xs) simp_all

lemma shadowVector_none_build:
  "shadowVector E seg timeStr = None
   \<Longrightarrow> buildTurfPolysAtTime E seg shell timeStr = Returns [] \<and> drawAtTime E seg shell timeStr = []"
  by (simp add: buildTurfPolysAtTime_def drawAtTime_def)

lemma aggLoop_single:
  "buildTurfPolysAtTime E seg shell (timeString m) = Returns polys
   \<Longrightarrow> aggLoop E seg shell m m agg = Returns (unionLoop E agg polys)"
  using aggLoop_all[of m m E seg shell "\<lambda>k. polys" agg] by simp

lemma turfQuads_ok:
  "(\<And>k. i \<le> k \<Longrightarrow> k < length shell \<Longrightarrow> polygonOk E [wallQuad shell shiftedRing k])
   \<Longrightarrow> turfQuads E shell shiftedRing i
         = Returns (map (\<lambda>k. [wallQuad shell shiftedRing k]) [i..<length shell])"
proof (induction E shell shiftedRing i rule: turfQuads.induct)
  case (1 E shell shiftedRing i)
  show ?case
  proof (cases "i < length shell")
    case True
    have ok: "polygon E [wallQuad shell shiftedRing i] = Returns [wallQuad shell shiftedRing i]"
      using 1(2)[of i] True by (simp add: polygon_def)
    have "turfQuads E shell shiftedRing (i + 1)
            = Returns (map (\<lambda>k. [wallQuad shell shiftedRing k]) [i + 1..<length shell])"
      using 1(1)[OF True] 1(2) by simp
    then show ?thesis using True ok
      by (subst turfQuads.simps) (simp add: upt_conv_Cons)
  next
    case False
    then show ?thesis by (subst turfQuads.simps) simp
  qed
qed

lemma andThen_Returns:
  "andThen x f = Returns y \<longleftrightarrow> (\<exists>a. x = Returns a \<and> f a = Returns y)"
  by (cases x) simp_all

lemma polygon_Returns: "polygon E rings = Returns p \<Longrightarrow> p = rings"
  by (simp add: polygon_def split: if_splits)

lemma turfQuads_Returns:
  "turfQuads E shell shiftedRing i = Returns qs
   \<Longrightarrow> qs = map (\<lambda>k. [wallQuad shell shiftedRing k]) [i..<length shell]"
proof (induction E shell shiftedRing i arbitrary: qs rule: turfQuads.induct)
  case (1 E shell shiftedRing i)
  show ?case
  proof (cases "i < length shell")
    case True
    from 1(2) True obtain q rest where
      q: "polygon E [wallQuad shell shiftedRing i] = Returns q"
      and r: "turfQuads E shell shiftedRing (i + 1) = Returns rest"
      and qs: "qs = q # rest"
      by (subst (asm) turfQuads.simps) (auto simp: andThen_Returns)
    from 1(1)[OF True r] polygon_Returns[OF q] qs True show ?thesis
      by (simp add: upt_conv_Cons)
  next
    case False
    with 1(2) show ?thesis by (subst (asm) turfQuads.simps) simp
  qed
qed

lemma build_content:
  assumes "shadowVector E seg t = Some (len, brg)"
    and "buildTurfPolysAtTime E seg shell t = Returns ps"
  shows "\<exists>base roof.
           closeRing shell = Returns base
         \<and> closeRing (map (\<lambda>c. destination E c len brg) shell) = Returns roof
         \<and> ps = [base] # [roof]
                # map (\<lambda>i. [wallQuad shell (map (\<lambda>c. destination E c len brg) shell) i])
                    [0..<length shell]"
  using assms
  by (auto simp: buildTurfPolysAtTime_def andThen_Returns Let_def
      dest!: polygon_Returns turfQuads_Returns)

lemma planar_fields:
  "polygonOk planar = list_all (\<lambda>ring. 4 \<le> length ring \<and> hd ring = last ring)"
  "destination planar = planarDestination"
  "union planar = collectUnion"
  "buffer planar = boxBuffer"
  "area planar = boxArea"
  "booleanWithin planar = boxWithin"
  "centroid planar = vertexMean"
  "distance planar = planarDistance"
  "bearing planar = planarBearing"
  "getPosition planar dateStr timeStr =
     (if timeStr = ''10:00'' then Returns (0, pi / 4)
      else if timeStr = ''10:01'' then Throws else Returns (0, - 1))"
  "dec22ThisYear planar = ''2026-12-22''"
  by (simp_all add: planar_def)

lemma demo_heights:
  "surfaceFeet demoSegment = Num 10" "rackingFeetOf demoSegment = Num 0"
  "parapetFeetOf demoSegment = Num 2"
  by (simp_all add: surfaceFeet_def rackingFeetOf_def parapetFeetOf_def demoSegment_def)

lemma demo_window: "window demoSegment = (600, 601)"
  by (simp add: window_def demoSegment_def getStartTime_def getEndTime_def orStr_def
      parseHHmmToMinutes_def parseInt_def digitVal_def isSpace_def Let_def)

lemma demo_timeString: "timeString 600 = ''10:00''" "timeString 601 = ''10:01''"
  by (simp_all add: timeString_def showInt_def padStart2_def rem60_def showNat.simps)

lemma demo_shadowVector:
  "shadowVector planar demoSegment ''10:00'' = Some (Num 3.6576, Num 0)"
  "shadowVector planar demoSegment ''10:01'' = None"
  by (simp_all add: shadowVector_def sunAt_def planar_fields segHeightM_def demo_heights
      FT_def segShadowLen_def jtan_def shadowBearing_def js_rem_def js_trunc_def jmin_def
      jmax_def Let_def cos_45 sin_45 not_le)

lemma demo_build:
  "buildTurfPolysAtTime planar demoSegment demoShell ''10:00'' = Returns demoPolys"
  "buildTurfPolysAtTime planar demoSegment demoShell ''10:01'' = Returns []"
proof -
  show "buildTurfPolysAtTime planar demoSegment demoShell ''10:00'' = Returns demoPolys"
    apply (simp add: buildTurfPolysAtTime_def demo_shadowVector closeRing_def polygon_def
        planar_fields planarDestination_def demoShell_def)
    apply (subst turfQuads.simps, simp add: wallQuad_def polygon_def planar_fields Let_def)+
    apply (simp add: demoPolys_def)
    done
  show "buildTurfPolysAtTime planar demoSegment demoShell ''10:01'' = Returns []"
    by (simp add: buildTurfPolysAtTime_def demo_shadowVector)
qed

text \<open>
  C1. At an instant at which the provider gives an altitude above 0 (where the tangent is
  defined and not 0) and for heights in feet whose sum in meters \<open>h\<close> is positive, the
  roof shadow is the ring moved by \<open>h / tan(altitude)\<close> clamped to \<open>[0, 500]\<close>, along the
  bearing \<open>((azimuth in degrees + 180 + 360) % 360 + 180) % 360\<close>. At 45 degrees and for
  \<open>h\<close> up to 500 the length is \<open>h\<close>. For an azimuth of at least \<open>-3 pi\<close> (the provider's
  are between \<open>-pi\<close> and \<open>pi\<close>) the bearing lies in \<open>[0, 360)\<close> and differs from the
  azimuth in degrees by a multiple of 360.
\<close>

theorem shadow_length_and_bearing:
  assumes pos: "getPosition E (orStr (analysisDate seg) (dec22ThisYear E)) timeStr
                  = Returns (sunAz, sunAlt)"
    and alt: "0 < sunAlt" "sin sunAlt \<noteq> 0"
    and feet: "surfaceFeet seg = Num f" "rackingFeetOf seg = Num r" "parapetFeetOf seg = Num p"
    and h: "h = (f + r + p) * 0.3048" "0 < h"
  shows "shadowVector E seg timeStr
           = Some (Num (max 0 (min 500 (h / tan sunAlt))),
                   Num (js_rem (js_rem (sunAz * 180 / pi + 180 + 360) 360 + 180) 360))
       \<and> drawAtTime E seg shell timeStr
           = [shell]
             # [map (\<lambda>c. destination E c (Num (max 0 (min 500 (h / tan sunAlt))))
                        (Num (js_rem (js_rem (sunAz * 180 / pi + 180 + 360) 360 + 180) 360))) shell]
             # map (\<lambda>i. [wallQuad shell
                   (map (\<lambda>c. destination E c (Num (max 0 (min 500 (h / tan sunAlt))))
                        (Num (js_rem (js_rem (sunAz * 180 / pi + 180 + 360) 360 + 180) 360))) shell) i])
                 [0..<length shell]
       \<and> (sunAlt = pi / 4 \<and> h \<le> 500 \<longrightarrow> max 0 (min 500 (h / tan sunAlt)) = h)
       \<and> (- 3 * pi \<le> sunAz \<longrightarrow>
            0 \<le> js_rem (js_rem (sunAz * 180 / pi + 180 + 360) 360 + 180) 360
            \<and> js_rem (js_rem (sunAz * 180 / pi + 180 + 360) 360 + 180) 360 < 360
            \<and> (\<exists>k::int. js_rem (js_rem (sunAz * 180 / pi + 180 + 360) 360 + 180) 360
                          = sunAz * 180 / pi + 360 * of_int k))"
proof -
  have hm: "segHeightM seg = Num h" using segHeightM_finite[OF feet] h by simp
  have sv: "shadowVector E seg timeStr
           = Some (Num (max 0 (min 500 (h / tan sunAlt))),
                   Num (js_rem (js_rem (sunAz * 180 / pi + 180 + 360) 360 + 180) 360))"
    using alt h(2) by (simp add: shadowVector_def sunAt_Returns[OF pos] hm
        segShadowLen_finite shadowBearing_def Let_def)
  have dr: "drawAtTime E seg shell timeStr
           = [shell]
             # [map (\<lambda>c. destination E c (Num (max 0 (min 500 (h / tan sunAlt))))
                        (Num (js_rem (js_rem (sunAz * 180 / pi + 180 + 360) 360 + 180) 360))) shell]
             # map (\<lambda>i. [wallQuad shell
                   (map (\<lambda>c. destination E c (Num (max 0 (min 500 (h / tan sunAlt))))
                        (Num (js_rem (js_rem (sunAz * 180 / pi + 180 + 360) 360 + 180) 360))) shell) i])
                 [0..<length shell]"
    by (simp add: drawAtTime_def sv Let_def drawQuads_upt)
  have l45: "sunAlt = pi / 4 \<and> h \<le> 500 \<longrightarrow> max 0 (min 500 (h / tan sunAlt)) = h"
  proof
    assume a: "sunAlt = pi / 4 \<and> h \<le> 500"
    then have "h / tan sunAlt = h" by (simp only: tan_45 div_by_1)
    with a h(2) show "max 0 (min 500 (h / tan sunAlt)) = h" by simp
  qed
  have br: "- 3 * pi \<le> sunAz \<longrightarrow>
            0 \<le> js_rem (js_rem (sunAz * 180 / pi + 180 + 360) 360 + 180) 360
            \<and> js_rem (js_rem (sunAz * 180 / pi + 180 + 360) 360 + 180) 360 < 360
            \<and> (\<exists>k::int. js_rem (js_rem (sunAz * 180 / pi + 180 + 360) 360 + 180) 360
                          = sunAz * 180 / pi + 360 * of_int k)"
    using shadowBearing_range[of sunAz] by (simp add: shadowBearing_def Let_def)
  from sv dr l45 br show ?thesis by blast
qed




theorem shadow_length_and_bearing_witness:
  "getPosition planar (orStr (analysisDate demoSegment) (dec22ThisYear planar)) ''10:00''
     = Returns (0, pi / 4)
   \<and> 0 < pi / 4 \<and> sin (pi / 4) \<noteq> 0
   \<and> shadowVector planar demoSegment ''10:00'' = Some (Num 3.6576, Num 0)
   \<and> drawAtTime planar demoSegment demoShell ''10:00''
       = [[(0, 0), (4, 0), (4, 0), (0, 3)]]
         # [[(0, 3.6576), (4, 3.6576), (4, 3.6576), (0, 6.6576)]]
         # drop 2 demoPolys"
proof -
  have p: "getPosition planar (orStr (analysisDate demoSegment) (dec22ThisYear planar)) ''10:00''
             = Returns (0, pi / 4)"
    by (simp add: planar_fields)
  have s: "sin (pi / 4) \<noteq> 0" by (simp add: sin_45)
  have h: "(3.6576::real) = (10 + 0 + 2) * 0.3048" by simp
  have t: "(3.6576::real) / tan (pi / 4) = 3.6576" by (simp only: tan_45 div_by_1)
  from shadow_length_and_bearing [OF p _ s demo_heights h, of demoShell] p s
  show ?thesis
    by (simp add: t js_rem_def js_trunc_def planar_fields planarDestination_def demoShell_def
        demoPolys_def wallQuad_def Let_def upt_conv_Cons)
qed

text \<open>
  C3. The window runs from the smaller to the larger of the parsed start and end times. When
  the polygons of every sampled minute of the window can be built, the aggregate is the
  result of the loop over all of them in order, and it is what a union without any skipping
  gives on the sub-list of the polygons whose union step did not throw. When the polygons
  of some sampled minute cannot be built, the aggregation throws. The polygons of a sample
  at which a shadow is cast are the base, the roof and one quad per edge.
\<close>

theorem interval_aggregate:
  "window seg
     = (min (parseHHmmToMinutes (getStartTime seg)) (parseHHmmToMinutes (getEndTime seg)),
        max (parseHHmmToMinutes (getStartTime seg)) (parseHHmmToMinutes (getEndTime seg)))
   \<and> ((\<forall>k \<in> set [fst (window seg)..snd (window seg)].
          buildTurfPolysAtTime E seg shell (timeString k) \<noteq> Throws)
        \<longrightarrow> aggregateOf E seg shell = Returns (unionLoop E None (samplePolys E seg shell))
          \<and> unionAll E None (succeeded E None (samplePolys E seg shell))
              = aggregateOf E seg shell
          \<and> isSubseq (succeeded E None (samplePolys E seg shell)) (samplePolys E seg shell))
   \<and> ((\<exists>k \<in> set [fst (window seg)..snd (window seg)].
          buildTurfPolysAtTime E seg shell (timeString k) = Throws)
        \<longrightarrow> aggregateOf E seg shell = Throws)
   \<and> (\<forall>k len brg ps.
          shadowVector E seg (timeString k) = Some (len, brg)
          \<and> buildTurfPolysAtTime E seg shell (timeString k) = Returns ps
          \<longrightarrow> (\<exists>base roof.
                 closeRing shell = Returns base
               \<and> closeRing (map (\<lambda>c. destination E c len brg) shell) = Returns roof
               \<and> ps = [base] # [roof]
                      # map (\<lambda>i. [wallQuad shell (map (\<lambda>c. destination E c len brg) shell) i])
                          [0..<length shell]))"
proof -
  obtain lo hi where w: "window seg = (lo, hi)" by (cases "window seg")
  let ?polysAt = "\<lambda>k. case buildTurfPolysAtTime E seg shell (timeString k) of
                         Throws \<Rightarrow> [] | Returns polys \<Rightarrow> polys"
  have a: "aggregateOf E seg shell = Returns (unionLoop E None (samplePolys E seg shell))"
    if "\<forall>k \<in> set [lo..hi]. buildTurfPolysAtTime E seg shell (timeString k) \<noteq> Throws"
  proof -
    have "buildTurfPolysAtTime E seg shell (timeString k) = Returns (?polysAt k)"
      if "lo \<le> k" "k \<le> hi" for k
      using that \<open>\<forall>k \<in> set [lo..hi]. _\<close>
      by (cases "buildTurfPolysAtTime E seg shell (timeString k)") auto
    from aggLoop_all[of lo hi E seg shell ?polysAt None, OF this] show ?thesis
      using w by (simp add: aggregateOf_def samplePolys_def)
  qed
  have b: "aggregateOf E seg shell = Throws"
    if "\<exists>k \<in> set [lo..hi]. buildTurfPolysAtTime E seg shell (timeString k) = Throws"
  proof -
    from that obtain k where "lo \<le> k" "k \<le> hi"
      "buildTurfPolysAtTime E seg shell (timeString k) = Throws" by auto
    from aggLoop_throws[OF this] show ?thesis using w by (simp add: aggregateOf_def)
  qed
  show ?thesis
    using a b w window_min_max[of seg] build_content[of E seg _ _ _ shell]
    by (simp add: unionAll_succeeded succeeded_isSubseq) blast
qed


theorem interval_aggregate_witness:
  "window demoSegment = (600, 601)
   \<and> buildTurfPolysAtTime planar demoSegment demoShell (timeString 600) = Returns demoPolys
   \<and> buildTurfPolysAtTime planar demoSegment demoShell (timeString 601) = Returns []
   \<and> samplePolys planar demoSegment demoShell = demoPolys
   \<and> aggregateOf planar demoSegment demoShell
       = Returns (Some (MultiPolygon
           [demoPolys ! 0, demoPolys ! 2, demoPolys ! 4, demoPolys ! 5]))
   \<and> succeeded planar None demoPolys
       = [demoPolys ! 0, demoPolys ! 2, demoPolys ! 4, demoPolys ! 5]"
proof -
  have b: "\<forall>k \<in> set [600..601].
             buildTurfPolysAtTime planar demoSegment demoShell (timeString k) \<noteq> Throws"
    by (simp add: demo_timeString demo_build)
  have sp: "samplePolys planar demoSegment demoShell = demoPolys"
    by (simp add: samplePolys_def demo_window demo_timeString demo_build)
  have ul: "unionLoop planar None demoPolys
              = Some (MultiPolygon [demoPolys ! 0, demoPolys ! 2, demoPolys ! 4, demoPolys ! 5])"
    by (simp add: demoPolys_def unionStep_def planar_fields collectUnion_def)
  have su: "succeeded planar None demoPolys
              = [demoPolys ! 0, demoPolys ! 2, demoPolys ! 4, demoPolys ! 5]"
    by (simp add: demoPolys_def planar_fields collectUnion_def)
  from interval_aggregate [of demoSegment planar demoShell] b sp ul su
  show ?thesis by (simp add: demo_window demo_timeString demo_build)
qed

text \<open>
  C6. At a sampled minute at which the sun-position lookup throws, or gives an altitude of
  at most 0, the segment gets no polygon: none is built for the aggregate, which the minute
  leaves as it was, none is drawn, and nothing throws.
\<close>

theorem no_shadow_sun_down:
  assumes "getPosition E (orStr (analysisDate seg) (dec22ThisYear E)) (timeString m) = Throws
           \<or> (\<exists>az alt. getPosition E (orStr (analysisDate seg) (dec22ThisYear E)) (timeString m)
                          = Returns (az, alt) \<and> alt \<le> 0)"
  shows "buildTurfPolysAtTime E seg shell (timeString m) = Returns []
       \<and> drawAtTime E seg shell (timeString m) = []
       \<and> aggLoop E seg shell m m agg = Returns agg
       \<and> drawLoop E seg shell m m = []"
proof -
  have "shadowVector E seg (timeString m) = None"
    using assms by (auto simp: shadowVector_def sunAt_def)
  from shadowVector_none_build[OF this, of shell] show ?thesis
    by (simp add: aggLoop_single drawLoop_upto)
qed


theorem no_shadow_sun_down_witness:
  "getPosition planar (orStr (analysisDate demoSegment) (dec22ThisYear planar)) (timeString 601)
     = Throws
   \<and> getPosition planar (orStr (analysisDate demoSegment) (dec22ThisYear planar)) (timeString 0)
     = Returns (0, - 1)
   \<and> buildTurfPolysAtTime planar demoSegment demoShell (timeString 601) = Returns []
   \<and> drawAtTime planar demoSegment demoShell (timeString 601) = []
   \<and> aggLoop planar demoSegment demoShell 601 601 (Some (Polygon [demoShell]))
       = Returns (Some (Polygon [demoShell]))
   \<and> buildTurfPolysAtTime planar demoSegment demoShell (timeString 0) = Returns []
   \<and> drawAtTime planar demoSegment demoShell (timeString 0) = []"
proof -
  have t0: "timeString 0 = ''00:00''"
    by (simp add: timeString_def showInt_def padStart2_def rem60_def showNat.simps)
  have p1: "getPosition planar (orStr (analysisDate demoSegment) (dec22ThisYear planar))
              (timeString 601) = Throws"
    by (simp add: planar_fields demo_timeString)
  have p0: "getPosition planar (orStr (analysisDate demoSegment) (dec22ThisYear planar))
              (timeString 0) = Returns (0, - 1)"
    by (simp add: planar_fields t0)
  from no_shadow_sun_down [of planar demoSegment 601 demoShell "Some (Polygon [demoShell])"]
    no_shadow_sun_down [of planar demoSegment 0 demoShell None] p1 p0
  show ?thesis by simp
qed

text \<open>
  C10. A segment whose combined height in meters is not finite or is at most 0 gets no
  shadow polygon at any time, whatever the sun does: none is built, none is drawn, and
  the shadows of the whole window are empty.
\<close>

theorem no_shadow_without_height:
  assumes "\<not> isFinite (segHeightM seg) \<or> jle (segHeightM seg) (Num 0)"
  shows "buildTurfPolysAtTime E seg shell timeStr = Returns []
       \<and> drawAtTime E seg shell timeStr = []
       \<and> segmentShadows E seg = Returns []"
proof -
  have sv: "shadowVector E seg t = None" for t
    using assms by (auto simp: shadowVector_def Let_def split: prod.splits)
  have b: "buildTurfPolysAtTime E seg sh t = Returns []" "drawAtTime E seg sh t = []" for sh t
    using shadowVector_none_build[OF sv] by simp_all
  have "segmentShadows E seg = Returns []"
  proof (cases "geometry seg")
    case None
    then show ?thesis by (simp add: segmentShadows_def)
  next
    case (Some sh)
    obtain lo hi where w: "window seg = (lo, hi)" by (cases "window seg")
    have "aggLoop E seg sh lo hi None = Returns None"
      using aggLoop_all[of lo hi E seg sh "\<lambda>k. []" None] b by (simp add: concat_map_Nil)
    then show ?thesis using Some w
      by (simp add: segmentShadows_def drawLoop_upto b concat_map_Nil)
  qed
  with b show ?thesis by simp
qed


theorem no_shadow_without_height_witness:
  "jle (segHeightM (demoSegment\<lparr>surfaceHeight := Some (Num 0), parapetHeight := None\<rparr>)) (Num 0)
   \<and> \<not> isFinite (segHeightM (demoSegment\<lparr>rackingHeight := Some NaN\<rparr>))
   \<and> segmentShadows planar (demoSegment\<lparr>surfaceHeight := Some (Num 0), parapetHeight := None\<rparr>)
       = Returns []
   \<and> segmentShadows planar (demoSegment\<lparr>rackingHeight := Some NaN\<rparr>) = Returns []"
proof -
  have a: "jle (segHeightM (demoSegment\<lparr>surfaceHeight := Some (Num 0), parapetHeight := None\<rparr>))
             (Num 0)"
    by (simp add: segHeightM_def surfaceFeet_def rackingFeetOf_def parapetFeetOf_def
        demoSegment_def)
  have b: "\<not> isFinite (segHeightM (demoSegment\<lparr>rackingHeight := Some NaN\<rparr>))"
    by (simp add: segHeightM_def surfaceFeet_def rackingFeetOf_def parapetFeetOf_def
        demoSegment_def)
  from no_shadow_without_height
         [of "demoSegment\<lparr>surfaceHeight := Some (Num 0), parapetHeight := None\<rparr>" planar]
       no_shadow_without_height [of "demoSegment\<lparr>rackingHeight := Some NaN\<rparr>" planar] a b
  show ?thesis by simp
qed

section \<open>Module layout\<close>

lemma demoField_params:
  "moduleW demoField (3, 2) = Num 3"
  "moduleH demoField (3, 2) = Num 2"
  "moduleSpacingM demoField = Num (0.041 * 0.3048)"
  "frameSpacingM demoField = Num 0"
  "rowSpacingM demoField = Num 0.6096"
  "sizeWide demoField = Num 1"
  "sizeUp demoField = Num 1"
  "bearingYOf demoField = Num 0"
  "bearingXOf demoField = Num 90"
  by (simp_all add: moduleW_def moduleH_def isPortrait_def moduleSpacingM_def frameSpacingM_def
      rowSpacingM_def sizeWide_def sizeUp_def bearingYOf_def bearingXOf_def moduleAz_def
      demoField_def meters_def orZero_def jmax_def jlt_def FT_def js_rem_def js_trunc_def Let_def)

lemma demoField_frame:
  "frameW demoField (3, 2) = Num 3"
  "frameH demoField (3, 2) = Num 2"
  "stepX demoField (3, 2) = Num 3"
  "stepY demoField (3, 2) = Num 2.6096"
  by (simp_all add: frameW_def frameH_def stepX_def stepY_def demoField_params jsub_def)

lemma demo_toTurfPolygon: "toTurfPolygon planar diamond = Returns diamondPoly"
  by (simp add: toTurfPolygon_def polygon_def planar_fields diamond_def diamondPoly_def)

lemma demo_inset: "inset planar demoField diamondPoly = diamondPoly"
  by (simp add: inset_def demoField_def meters_def orZero_def)

lemma cos_deg:
  "cos (- 90 * (pi / 180)) = 0" "cos (- 180 * (pi / 180)) = - 1"
  "cos (90 * (pi / 180)) = 0" "cos (180 * (pi / 180)) = - 1"
proof -
  have a: "- 90 * (pi / 180) = - (pi / 2)" "- 180 * (pi / 180) = - pi"
    "90 * (pi / 180) = pi / 2" "180 * (pi / 180) = pi" by simp_all
  show "cos (- 90 * (pi / 180)) = 0" "cos (- 180 * (pi / 180)) = - 1"
    "cos (90 * (pi / 180)) = 0" "cos (180 * (pi / 180)) = - 1"
    unfolding a by simp_all
qed

lemma demo_extents: "extents planar demoField diamondPoly = (Num (- 2), Num 2, Num (- 2), Num 2)"
  by (simp add: extents_def demoField_params planar_fields vertexMean_def ringCoordsOf_def
      diamondPoly_def planarDistance_def planarBearing_def jsub_def jlt_def cos_deg Let_def)

lemma demo_widths:
  "widthM planar demoField diamondPoly = Num 4"
  "heightM planar demoField diamondPoly = Num 4"
  "southWest planar demoField diamondPoly = (- 2, - 2)"
  by (simp_all add: widthM_def heightM_def southWest_def demo_extents jsub_def jmax_def shift_def
      demoField_params planar_fields planarDestination_def js_rem_def js_trunc_def)
     (simp add: vertexMean_def diamondPoly_def)

lemma demo_margin:
  "leftoverX planar demoField (3, 2) diamondPoly = Num 1"
  "marginX planar demoField (3, 2) diamondPoly = Num 0.5"
  "startEast planar demoField (3, 2) diamondPoly = Num 2"
  "startNorth demoField (3, 2) = Num 1"
proof -
  show l: "leftoverX planar demoField (3, 2) diamondPoly = Num 1"
    by (simp add: leftoverX_def demo_widths demoField_frame jsub_def jmax_def)
  have a: "alignment demoField = Some AlignCenter" by (simp add: demoField_def)
  show m: "marginX planar demoField (3, 2) diamondPoly = Num 0.5"
    by (simp add: marginX_def l a demoField_frame js_rem_def js_trunc_def)
  show "startEast planar demoField (3, 2) diamondPoly = Num 2"
    by (simp add: startEast_def m demoField_frame)
  show "startNorth demoField (3, 2) = Num 1"
    by (simp add: startNorth_def demoField_frame)
qed

lemma forCount_step:
  "jlt (Num (real i)) bound \<Longrightarrow> body i = Some (Returns out)
   \<Longrightarrow> forCount body bound i acc = forCount body bound (i + 1) (acc @ out)"
  by (subst forCount.simps) simp

lemma forCount_stop:
  "\<not> jlt (Num (real i)) bound \<Longrightarrow> forCount body bound i acc = Some (Returns acc)"
  by (subst forCount.simps) simp

lemma forStep_step:
  "jle v bound \<Longrightarrow> body v = Some (Returns out)
   \<Longrightarrow> forStep body bound step v acc = forStep body bound step (jadd v step) (acc @ out)"
  by (subst forStep.simps) simp

lemma forStep_stop:
  "\<not> jle v bound \<Longrightarrow> forStep body bound step v acc = Some (Returns acc)"
  by (subst forStep.simps) simp

lemma demo_placeModule:
  "placeModule planar demoField (3, 2) diamondPoly (- (3 / 2), 0) 0 0
     = Returns [[(- (3 / 2), 0), (3 / 2, 0), (3 / 2, - 2), (- (3 / 2), - 2), (- (3 / 2), 0)]]"
  by (simp add: placeModule_def buildRotatedRect_def demoField_params planar_fields
      planarDestination_def polygon_def boxWithin_def boxOf_def diamondPoly_def
      js_rem_def js_trunc_def Let_def)

lemma demo_placeFrame:
  "placeFrame planar demoField (3, 2) diamondPoly (- 2, - 1) (Num 2)
     = Some (Returns [[(- (3 / 2), 0), (3 / 2, 0), (3 / 2, - 2), (- (3 / 2), - 2), (- (3 / 2), 0)]])"
proof -
  have inner: "forCount (\<lambda>c. Some (placeModule planar demoField (3, 2) diamondPoly (- (3 / 2), 0) 0 c))
                 (Num 1) 0 []
     = Some (Returns [[(- (3 / 2), 0), (3 / 2, 0), (3 / 2, - 2), (- (3 / 2), - 2), (- (3 / 2), 0)]])"
    by (simp add: forCount_step[where out = "[[(- (3 / 2), 0), (3 / 2, 0), (3 / 2, - 2), (- (3 / 2), - 2), (- (3 / 2), 0)]]"]
        forCount_stop jlt_def demo_placeModule)
  show ?thesis
    by (simp add: placeFrame_def demoField_params demoField_frame planar_fields
        planarDestination_def js_rem_def js_trunc_def Let_def
        forCount_step[where out = "[[(- (3 / 2), 0), (3 / 2, 0), (3 / 2, - 2), (- (3 / 2), - 2), (- (3 / 2), 0)]]"]
        forCount_stop jlt_def inner)
qed

lemma demo_placeRow:
  "placeRow planar demoField (3, 2) diamondPoly (Num 1)
     = Some (Returns [[(- (3 / 2), 0), (3 / 2, 0), (3 / 2, - 2), (- (3 / 2), - 2), (- (3 / 2), 0)]])"
  by (simp add: placeRow_def demoField_params demoField_frame demo_widths demo_margin
      planar_fields planarDestination_def jsub_def Let_def
      forStep_step[where out = "[[(- (3 / 2), 0), (3 / 2, 0), (3 / 2, - 2), (- (3 / 2), - 2), (- (3 / 2), 0)]]"]
      forStep_stop demo_placeFrame)

lemma demo_packModules:
  "packModules planar demoField (3, 2) diamondPoly
     = Some (Returns [[(- (3 / 2), 0), (3 / 2, 0), (3 / 2, - 2), (- (3 / 2), - 2), (- (3 / 2), 0)]])"
  by (simp add: packModules_def demoField_frame demo_widths demo_margin jsub_def
      forStep_step[where out = "[[(- (3 / 2), 0), (3 / 2, 0), (3 / 2, - 2), (- (3 / 2), - 2), (- (3 / 2), 0)]]"]
      forStep_stop demo_placeRow)

lemma demo_layout:
  "layoutModules planar demoDims demoField
     = Some (Returns [[(- (3 / 2), 0), (3 / 2, 0), (3 / 2, - 2), (- (3 / 2), - 2), (- (3 / 2), 0)]])"
proof -
  have g: "geometry demoField = Some diamond" "module demoField = Some ''m1''"
    by (simp_all add: demoField_def)
  show ?thesis
    by (simp add: layoutModules_def g demo_toTurfPolygon demo_inset demo_packModules demoDims_def)
qed


lemma forStep_inv:
  assumes "forStep body bound step v acc = Some y"
  shows "(\<forall>w out. body w = Some (Returns out) \<longrightarrow> (\<forall>x \<in> set out. Q x))
         \<longrightarrow> (\<forall>x \<in> set acc. Q x)
         \<longrightarrow> (\<forall>res. y = Returns res \<longrightarrow> (\<forall>x \<in> set res. Q x))"
proof (rule forStep.raw_induct
    [where P = "\<lambda>body bound step v acc y.
         (\<forall>w out. body w = Some (Returns out) \<longrightarrow> (\<forall>x \<in> set out. Q x))
         \<longrightarrow> (\<forall>x \<in> set acc. Q x)
         \<longrightarrow> (\<forall>res. y = Returns res \<longrightarrow> (\<forall>x \<in> set res. Q x))", OF _ assms])
  fix loop :: "(jsnum \<Rightarrow> 'a list outcome option) \<Rightarrow> jsnum \<Rightarrow> jsnum \<Rightarrow> jsnum \<Rightarrow> 'a list
                 \<Rightarrow> 'a list outcome option"
    and body bound step v acc y
  assume IH: "\<And>body bound step v acc y. loop body bound step v acc = Some y \<Longrightarrow>
         (\<forall>w out. body w = Some (Returns out) \<longrightarrow> (\<forall>x \<in> set out. Q x))
         \<longrightarrow> (\<forall>x \<in> set acc. Q x)
         \<longrightarrow> (\<forall>res. y = Returns res \<longrightarrow> (\<forall>x \<in> set res. Q x))"
    and eq: "(if jle v bound
              then (case body v of
                      None \<Rightarrow> None
                    | Some Throws \<Rightarrow> Some Throws
                    | Some (Returns out) \<Rightarrow> loop body bound step (jadd v step) (acc @ out))
              else Some (Returns acc)) = Some y"
  show "(\<forall>w out. body w = Some (Returns out) \<longrightarrow> (\<forall>x \<in> set out. Q x))
         \<longrightarrow> (\<forall>x \<in> set acc. Q x)
         \<longrightarrow> (\<forall>res. y = Returns res \<longrightarrow> (\<forall>x \<in> set res. Q x))"
  proof (cases "jle v bound")
    case False
    with eq show ?thesis by auto
  next
    case True
    show ?thesis
    proof (cases "body v")
      case None
      with True eq show ?thesis by simp
    next
      case (Some r)
      show ?thesis
      proof (cases r)
        case Throws
        with True Some eq show ?thesis by auto
      next
        case (Returns out)
        with True Some eq
        have "loop body bound step (jadd v step) (acc @ out) = Some y" by simp
        from IH[OF this] Some Returns show ?thesis by auto
      qed
    qed
  qed
qed

lemma forCount_inv:
  assumes "forCount body bound i acc = Some y"
  shows "(\<forall>w out. body w = Some (Returns out) \<longrightarrow> (\<forall>x \<in> set out. Q x))
         \<longrightarrow> (\<forall>x \<in> set acc. Q x)
         \<longrightarrow> (\<forall>res. y = Returns res \<longrightarrow> (\<forall>x \<in> set res. Q x))"
proof (rule forCount.raw_induct
    [where P = "\<lambda>body bound i acc y.
         (\<forall>w out. body w = Some (Returns out) \<longrightarrow> (\<forall>x \<in> set out. Q x))
         \<longrightarrow> (\<forall>x \<in> set acc. Q x)
         \<longrightarrow> (\<forall>res. y = Returns res \<longrightarrow> (\<forall>x \<in> set res. Q x))", OF _ assms])
  fix loop :: "(nat \<Rightarrow> 'a list outcome option) \<Rightarrow> jsnum \<Rightarrow> nat \<Rightarrow> 'a list
                 \<Rightarrow> 'a list outcome option"
    and body bound i acc y
  assume IH: "\<And>body bound i acc y. loop body bound i acc = Some y \<Longrightarrow>
         (\<forall>w out. body w = Some (Returns out) \<longrightarrow> (\<forall>x \<in> set out. Q x))
         \<longrightarrow> (\<forall>x \<in> set acc. Q x)
         \<longrightarrow> (\<forall>res. y = Returns res \<longrightarrow> (\<forall>x \<in> set res. Q x))"
    and eq: "(if jlt (Num (real i)) bound
              then (case body i of
                      None \<Rightarrow> None
                    | Some Throws \<Rightarrow> Some Throws
                    | Some (Returns out) \<Rightarrow> loop body bound (i + 1) (acc @ out))
              else Some (Returns acc)) = Some y"
  show "(\<forall>w out. body w = Some (Returns out) \<longrightarrow> (\<forall>x \<in> set out. Q x))
         \<longrightarrow> (\<forall>x \<in> set acc. Q x)
         \<longrightarrow> (\<forall>res. y = Returns res \<longrightarrow> (\<forall>x \<in> set res. Q x))"
  proof (cases "jlt (Num (real i)) bound")
    case False
    with eq show ?thesis by auto
  next
    case True
    show ?thesis
    proof (cases "body i")
      case None
      with True eq show ?thesis by simp
    next
      case (Some r)
      show ?thesis
      proof (cases r)
        case Throws
        with True Some eq show ?thesis by auto
      next
        case (Returns out)
        with True Some eq
        have "loop body bound (i + 1) (acc @ out) = Some y" by simp
        from IH[OF this] Some Returns show ?thesis by auto
      qed
    qed
  qed
qed

lemma forStep_all:
  "forStep body bound step v [] = Some (Returns res)
   \<Longrightarrow> (\<And>w out. body w = Some (Returns out) \<Longrightarrow> \<forall>x \<in> set out. P x)
   \<Longrightarrow> \<forall>x \<in> set res. P x"
  using forStep_inv[of body bound step v "[]" "Returns res" P] by simp

lemma forCount_all:
  "forCount body bound i [] = Some (Returns res)
   \<Longrightarrow> (\<And>w out. body w = Some (Returns out) \<Longrightarrow> \<forall>x \<in> set out. P x)
   \<Longrightarrow> \<forall>x \<in> set res. P x"
  using forCount_inv[of body bound i "[]" "Returns res" P] by simp

lemma buildRotatedRect_ring:
  "buildRotatedRect E center halfW halfH bearingX bearingY = Returns rect
   \<Longrightarrow> \<exists>ring. rect = [ring]"
  by (auto simp: buildRotatedRect_def Let_def dest!: polygon_Returns)

lemma placeModule_out:
  assumes "placeModule E seg dims region frameTopLeft r c = Returns out"
  shows "\<exists>ring. out = (if booleanWithin E [ring] region = Returns True then [ring] else [])"
proof -
  from assms obtain rect where
    b: "buildRotatedRect E
          (destination E (destination E frameTopLeft
              (jadd (jmul (Num (real c)) (jadd (moduleW seg dims) (moduleSpacingM seg)))
                    (jdiv (moduleW seg dims) (Num 2))) (bearingXOf seg))
            (jadd (jmul (Num (real r)) (jadd (moduleH seg dims) (moduleSpacingM seg)))
                  (jdiv (moduleH seg dims) (Num 2)))
            (jmod (jadd (bearingYOf seg) (Num 180)) (Num 360)))
          (jdiv (moduleW seg dims) (Num 2)) (jdiv (moduleH seg dims) (Num 2))
          (bearingXOf seg) (bearingYOf seg) = Returns rect"
    and o: "out = (case booleanWithin E rect region of
                     Returns True \<Rightarrow> (case rect of [] \<Rightarrow> [] | ring # holes \<Rightarrow> [ring])
                   | Returns False \<Rightarrow> []
                   | Throws \<Rightarrow> [])"
    by (auto simp: placeModule_def Let_def andThen_Returns)
  from buildRotatedRect_ring[OF b] obtain ring where rect: "rect = [ring]" by blast
  have "out = (if booleanWithin E [ring] region = Returns True then [ring] else [])"
  proof (cases "booleanWithin E rect region")
    case Throws
    with o rect show ?thesis by simp
  next
    case (Returns w)
    with o rect show ?thesis by (cases w) simp_all
  qed
  then show ?thesis by blast
qed

lemma placeModule_within:
  assumes "placeModule E seg dims region frameTopLeft r c = Returns out"
  shows "\<forall>ring \<in> set out. booleanWithin E [ring] region = Returns True"
  using placeModule_out[OF assms] by (auto split: if_splits)

lemma placeModule_whole:
  assumes "placeModule E seg dims region frameTopLeft r c = Returns out"
  shows "out = [] \<or> (\<exists>ring. out = [ring] \<and> booleanWithin E [ring] region = Returns True)"
  using placeModule_out[OF assms] by (auto split: if_splits)

lemma placeFrame_within:
  assumes "placeFrame E seg dims region frameRowBase xOff = Some (Returns out)"
  shows "\<forall>ring \<in> set out. booleanWithin E [ring] region = Returns True"
proof -
  let ?ftl = "destination E
              (destination E (destination E frameRowBase xOff (bearingXOf seg))
                 (jdiv (frameW seg dims) (Num 2))
                 (jmod (jadd (bearingXOf seg) (Num 180)) (Num 360)))
              (jdiv (frameH seg dims) (Num 2)) (bearingYOf seg)"
  from assms have f: "forCount
           (\<lambda>r. forCount (\<lambda>c. Some (placeModule E seg dims region ?ftl r c)) (sizeWide seg) 0 [])
           (sizeUp seg) 0 [] = Some (Returns out)"
    by (simp add: placeFrame_def Let_def)
  show ?thesis
  proof (rule forCount_all[OF f])
    fix r out'
    assume "forCount (\<lambda>c. Some (placeModule E seg dims region ?ftl r c)) (sizeWide seg) 0 []
              = Some (Returns out')"
    then show "\<forall>ring \<in> set out'. booleanWithin E [ring] region = Returns True"
    proof (rule forCount_all)
      fix c out''
      assume "Some (placeModule E seg dims region ?ftl r c) = Some (Returns out'')"
      then show "\<forall>ring \<in> set out''. booleanWithin E [ring] region = Returns True"
        using placeModule_within[of E seg dims region ?ftl r c out''] by simp
    qed
  qed
qed

lemma packModules_within:
  assumes "packModules E seg dims region = Some (Returns out)"
  shows "\<forall>ring \<in> set out. booleanWithin E [ring] region = Returns True"
proof (rule forStep_all[OF assms[unfolded packModules_def]])
  fix yOff out'
  assume "placeRow E seg dims region yOff = Some (Returns out')"
  then show "\<forall>ring \<in> set out'. booleanWithin E [ring] region = Returns True"
    unfolding placeRow_def Let_def
  proof (rule forStep_all)
    fix xOff out''
    assume "placeFrame E seg dims region
              (destination E (southWest E seg region) yOff (bearingYOf seg)) xOff
            = Some (Returns out'')"
    then show "\<forall>ring \<in> set out''. booleanWithin E [ring] region = Returns True"
      by (rule placeFrame_within)
  qed
qed

lemma inset_no_setback:
  "setback seg = None \<or> setback seg = Some NaN \<or> setback seg = Some PosInf
   \<or> setback seg = Some NegInf \<or> (\<exists>s. setback seg = Some (Num s) \<and> s \<le> 0)
   \<Longrightarrow> inset E seg turfPoly = turfPoly"
  by (auto simp: inset_def meters_def orZero_def FT_def Let_def)

lemma layoutModules_region:
  assumes "layoutModules E moduleDims seg = Some (Returns out)" and "ring \<in> set out"
  shows "\<exists>shell turfPoly. geometry seg = Some shell \<and> toTurfPolygon E shell = Returns turfPoly
           \<and> booleanWithin E [ring] (inset E seg turfPoly) = Returns True"
proof -
  from assms obtain shell where g: "geometry seg = Some shell"
    by (cases "geometry seg") (auto simp: layoutModules_def)
  from assms g obtain turfPoly where t: "toTurfPolygon E shell = Returns turfPoly"
    by (cases "toTurfPolygon E shell") (auto simp: layoutModules_def)
  from assms g t obtain moduleId where m: "module seg = Some moduleId" "moduleId \<noteq> []"
    by (cases "module seg") (auto simp: layoutModules_def split: if_splits)
  from assms g t m obtain dims where d: "moduleDims moduleId = Some dims"
    by (cases "moduleDims moduleId") (auto simp: layoutModules_def)
  from assms(1) g t m d have "packModules E seg dims (inset E seg turfPoly) = Some (Returns out)"
    by (simp add: layoutModules_def)
  from packModules_within[OF this] assms(2) g t show ?thesis by blast
qed


lemma alignment_indep:
  "isPortrait (seg\<lparr>alignment := a\<rparr>) = isPortrait seg"
  "moduleSpacingM (seg\<lparr>alignment := a\<rparr>) = moduleSpacingM seg"
  "frameSpacingM (seg\<lparr>alignment := a\<rparr>) = frameSpacingM seg"
  "rowSpacingM (seg\<lparr>alignment := a\<rparr>) = rowSpacingM seg"
  "sizeWide (seg\<lparr>alignment := a\<rparr>) = sizeWide seg"
  "sizeUp (seg\<lparr>alignment := a\<rparr>) = sizeUp seg"
  "moduleAz (seg\<lparr>alignment := a\<rparr>) = moduleAz seg"
  by (simp_all add: isPortrait_def moduleSpacingM_def frameSpacingM_def rowSpacingM_def
      sizeWide_def sizeUp_def moduleAz_def)

lemma alignment_indep2:
  "moduleW (seg\<lparr>alignment := a\<rparr>) = moduleW seg"
  "moduleH (seg\<lparr>alignment := a\<rparr>) = moduleH seg"
  "bearingXOf (seg\<lparr>alignment := a\<rparr>) = bearingXOf seg"
  "bearingYOf (seg\<lparr>alignment := a\<rparr>) = bearingYOf seg"
  by (simp_all add: moduleW_def moduleH_def bearingXOf_def bearingYOf_def alignment_indep
      fun_eq_iff)

lemma alignment_indep3:
  "frameW (seg\<lparr>alignment := a\<rparr>) = frameW seg"
  "frameH (seg\<lparr>alignment := a\<rparr>) = frameH seg"
  "extents E (seg\<lparr>alignment := a\<rparr>) = extents E seg"
  "inset E (seg\<lparr>alignment := a\<rparr>) = inset E seg"
  by (simp_all add: frameW_def frameH_def extents_def inset_def alignment_indep alignment_indep2
      fun_eq_iff)

lemma alignment_indep4:
  "stepX (seg\<lparr>alignment := a\<rparr>) = stepX seg"
  "stepY (seg\<lparr>alignment := a\<rparr>) = stepY seg"
  "widthM E (seg\<lparr>alignment := a\<rparr>) = widthM E seg"
  "heightM E (seg\<lparr>alignment := a\<rparr>) = heightM E seg"
  "southWest E (seg\<lparr>alignment := a\<rparr>) = southWest E seg"
  "startNorth (seg\<lparr>alignment := a\<rparr>) = startNorth seg"
  by (simp_all add: stepX_def stepY_def widthM_def heightM_def southWest_def startNorth_def
      alignment_indep alignment_indep2 alignment_indep3 fun_eq_iff)

lemma alignment_indep5:
  "leftoverX E (seg\<lparr>alignment := a\<rparr>) = leftoverX E seg"
  "placeModule E (seg\<lparr>alignment := a\<rparr>) = placeModule E seg"
  by (simp_all add: leftoverX_def placeModule_def
      alignment_indep alignment_indep2 alignment_indep3 alignment_indep4 fun_eq_iff)

lemma placeFrame_alignment:
  "placeFrame E (seg\<lparr>alignment := a\<rparr>) = placeFrame E seg"
  by (simp add: placeFrame_def alignment_indep alignment_indep2 alignment_indep3
      alignment_indep5 fun_eq_iff)

lemma marginX_cases:
  "marginX E seg dims region =
     (case alignment seg of
        Some AlignLeft \<Rightarrow> Num 0
      | Some AlignRight \<Rightarrow> jmod (leftoverX E seg dims region) (stepX seg dims)
      | Some AlignCenter \<Rightarrow> jdiv (jmod (leftoverX E seg dims region) (stepX seg dims)) (Num 2)
      | Some AlignJustify \<Rightarrow> jdiv (jmod (leftoverX E seg dims region) (stepX seg dims)) (Num 2)
      | None \<Rightarrow> jdiv (jmod (leftoverX E seg dims region) (stepX seg dims)) (Num 2))"
  by (simp add: marginX_def Let_def split: option.splits alignment.splits)

lemma marginX_justify:
  "marginX E (seg\<lparr>alignment := Some AlignJustify\<rparr>) dims region
     = marginX E (seg\<lparr>alignment := Some AlignCenter\<rparr>) dims region"
  by (simp add: marginX_cases alignment_indep4 alignment_indep5)

lemma startEast_justify:
  "startEast E (seg\<lparr>alignment := Some AlignJustify\<rparr>) dims region
     = startEast E (seg\<lparr>alignment := Some AlignCenter\<rparr>) dims region"
  by (simp add: startEast_def marginX_justify alignment_indep3)

lemma placeRow_justify:
  "placeRow E (seg\<lparr>alignment := Some AlignJustify\<rparr>) dims region
     = placeRow E (seg\<lparr>alignment := Some AlignCenter\<rparr>) dims region"
  by (simp add: placeRow_def startEast_justify placeFrame_alignment alignment_indep2
      alignment_indep3 alignment_indep4 fun_eq_iff)

lemma packModules_justify:
  "packModules E (seg\<lparr>alignment := Some AlignJustify\<rparr>) dims region
     = packModules E (seg\<lparr>alignment := Some AlignCenter\<rparr>) dims region"
  by (simp add: packModules_def placeRow_justify alignment_indep3 alignment_indep4)

lemma layoutModules_justify:
  "layoutModules E moduleDims (seg\<lparr>alignment := Some AlignJustify\<rparr>)
     = layoutModules E moduleDims (seg\<lparr>alignment := Some AlignCenter\<rparr>)"
  by (simp add: layoutModules_def packModules_justify alignment_indep3
      split: option.splits outcome.splits)

lemma jmax0_Num: "jmax (Num 0) x = Num l \<Longrightarrow> 0 \<le> l"
  by (cases x) (auto simp: jmax_def split: if_splits)

lemma leftoverX_nonneg: "leftoverX E seg dims region = Num l \<Longrightarrow> 0 \<le> l"
  by (auto simp: leftoverX_def dest: jmax0_Num)


lemma largestPiece_running:
  assumes "list_all (polygonOk E) parts"
  shows "\<exists>b. largestPiece E parts (Num (area E b0)) (Some b0) = Returns (Some b)
            \<and> (b = b0 \<or> b \<in> set parts) \<and> area E b0 \<le> area E b
            \<and> (\<forall>p \<in> set parts. area E p \<le> area E b)"
  using assms
proof (induction parts arbitrary: b0)
  case Nil
  show ?case by simp
next
  case (Cons c rest)
  then have ok: "polygon E c = Returns c" and rest: "list_all (polygonOk E) rest"
    by (simp_all add: polygon_def)
  show ?case
  proof (cases "area E b0 < area E c")
    case True
    from Cons.IH[OF rest, of c] obtain b where
      "largestPiece E rest (Num (area E c)) (Some c) = Returns (Some b)"
      "b = c \<or> b \<in> set rest" "area E c \<le> area E b" "\<forall>p \<in> set rest. area E p \<le> area E b"
      by blast
    with True ok show ?thesis by (auto simp: jlt_def Let_def)
  next
    case False
    from Cons.IH[OF rest, of b0] obtain b where
      "largestPiece E rest (Num (area E b0)) (Some b0) = Returns (Some b)"
      "b = b0 \<or> b \<in> set rest" "area E b0 \<le> area E b" "\<forall>p \<in> set rest. area E p \<le> area E b"
      by blast
    with False ok show ?thesis by (auto simp: jlt_def Let_def)
  qed
qed

lemma largestPiece_largest:
  assumes "list_all (polygonOk E) parts" and "parts \<noteq> []"
  shows "\<exists>b. largestPiece E parts NegInf None = Returns (Some b)
            \<and> b \<in> set parts \<and> (\<forall>p \<in> set parts. area E p \<le> area E b)"
proof -
  from assms obtain c rest where p: "parts = c # rest" by (cases parts) auto
  with assms have ok: "polygon E c = Returns c" and rest: "list_all (polygonOk E) rest"
    by (simp_all add: polygon_def)
  from largestPiece_running[OF rest, of c] obtain b where
    "largestPiece E rest (Num (area E c)) (Some c) = Returns (Some b)"
    "b = c \<or> b \<in> set rest" "area E c \<le> area E b" "\<forall>p \<in> set rest. area E p \<le> area E b"
    by blast
  with p ok show ?thesis by (auto simp: jlt_def Let_def)
qed

lemma largestPiece_throws:
  "\<not> list_all (polygonOk E) parts \<Longrightarrow> largestPiece E parts maxA best = Throws"
proof (induction parts arbitrary: maxA best)
  case Nil
  then show ?case by simp
next
  case (Cons c rest)
  show ?case
  proof (cases "polygonOk E c")
    case False
    then show ?thesis by (simp add: polygon_def)
  next
    case True
    with Cons.prems have "\<not> list_all (polygonOk E) rest" by simp
    from Cons.IH[OF this] True show ?thesis by (simp add: polygon_def Let_def)
  qed
qed

lemma inset_positive:
  assumes "setback seg = Some (Num s)" and "0 < s"
  shows "inset E seg turfPoly =
           (case buffer E turfPoly (Num (- (s * 0.3048))) of
              Throws \<Rightarrow> turfPoly
            | Returns None \<Rightarrow> turfPoly
            | Returns (Some (MultiPolygon parts)) \<Rightarrow>
                (case largestPiece E parts NegInf None of
                   Throws \<Rightarrow> turfPoly
                 | Returns None \<Rightarrow> turfPoly
                 | Returns (Some best) \<Rightarrow> best)
            | Returns (Some (Polygon buff)) \<Rightarrow> buff)"
  using assms by (simp add: inset_def meters_def orZero_def FT_def Let_def)

lemma forCount_returns:
  assumes tot: "\<And>i. body i \<noteq> None" and fin: "bound \<noteq> PosInf"
  shows "forCount body bound i acc \<noteq> None"
proof (cases bound)
  case (Num n)
  have "n - real i \<le> real k \<Longrightarrow> forCount body (Num n) i acc \<noteq> None" for k i acc
  proof (induction k arbitrary: i acc)
    case 0
    then have "\<not> jlt (Num (real i)) (Num n)" by (simp add: jlt_def)
    then show ?case by (subst forCount.simps) simp
  next
    case (Suc k)
    show ?case
    proof (cases "jlt (Num (real i)) (Num n)")
      case False
      then show ?thesis by (subst forCount.simps) simp
    next
      case True
      from tot[of i] obtain r where r: "body i = Some r" by auto
      show ?thesis
      proof (cases r)
        case Throws
        with True r show ?thesis by (subst forCount.simps) simp
      next
        case (Returns out)
        from Suc.prems have "n - real (i + 1) \<le> real k" by simp
        from Suc.IH[OF this, of "acc @ out"] True r Returns show ?thesis
          by (subst forCount.simps) simp
      qed
    qed
  qed
  from this[of i "nat \<lceil>n - real i\<rceil>" acc] Num show ?thesis
    by (simp add: of_nat_ceiling)
next
  case PosInf
  with fin show ?thesis by simp
next
  case NegInf
  then show ?thesis by (subst forCount.simps) (simp add: jlt_def)
next
  case NaN
  then show ?thesis by (subst forCount.simps) (simp add: jlt_def)
qed

lemma forStep_returns:
  assumes tot: "\<And>w. body w \<noteq> None" and pos: "0 < s" and fin: "bound \<noteq> PosInf"
  shows "forStep body bound (Num s) (Num x) acc \<noteq> None"
proof (cases bound)
  case (Num b)
  have "b - x < real k * s \<Longrightarrow> forStep body (Num b) (Num s) (Num x) acc \<noteq> None" for k x acc
  proof (induction k arbitrary: x acc)
    case 0
    then have "\<not> jle (Num x) (Num b)" by simp
    then show ?case by (subst forStep.simps) simp
  next
    case (Suc k)
    show ?case
    proof (cases "jle (Num x) (Num b)")
      case False
      then show ?thesis by (subst forStep.simps) simp
    next
      case True
      from tot[of "Num x"] obtain r where r: "body (Num x) = Some r" by auto
      show ?thesis
      proof (cases r)
        case Throws
        with True r show ?thesis by (subst forStep.simps) simp
      next
        case (Returns out)
        from Suc.prems have "b - (x + s) < real k * s" by (simp add: algebra_simps)
        from Suc.IH[OF this, of "acc @ out"] True r Returns show ?thesis
          by (subst forStep.simps) simp
      qed
    qed
  qed
  moreover from reals_Archimedean3[OF pos] obtain k where "b - x < real k * s" by blast
  ultimately show ?thesis using Num by simp
next
  case PosInf
  with fin show ?thesis by simp
next
  case NegInf
  then show ?thesis by (subst forStep.simps) simp
next
  case NaN
  then show ?thesis by (subst forStep.simps) simp
qed

lemma meters_Num: "\<exists>m. meters x = Num m"
  by (cases x) (simp_all add: meters_def)

lemma jmax0_meters: "\<exists>m. jmax (Num 0) (meters x) = Num m"
  using meters_Num[of x] by (auto simp: jmax_def)

lemma spacing_Num:
  "\<exists>m. moduleSpacingM seg = Num m" "\<exists>m. frameSpacingM seg = Num m" "\<exists>m. rowSpacingM seg = Num m"
  by (simp_all add: moduleSpacingM_def frameSpacingM_def rowSpacingM_def jmax0_meters Let_def)

lemma jadd_Num_right: "jadd a (Num r) = Num s \<Longrightarrow> \<exists>f. a = Num f"
  by (cases a) simp_all

lemma frame_Num:
  assumes "jadd (jmul sz (Num mw)) (jmul (jsub sz (Num 1)) (Num sp)) = Num f"
  shows "\<exists>w. sz = Num w"
  using assms by (cases sz) (auto simp: jsub_def split: if_splits)

lemma stepX_Num:
  assumes "stepX seg dims = Num s"
  shows "\<exists>w f. sizeWide seg = Num w \<and> frameW seg dims = Num f"
proof -
  from spacing_Num(2)[of seg] obtain fs where fs: "frameSpacingM seg = Num fs" by blast
  from assms fs obtain f where f: "frameW seg dims = Num f"
    by (auto simp: stepX_def dest: jadd_Num_right)
  from spacing_Num(1)[of seg] obtain sp where sp: "moduleSpacingM seg = Num sp" by blast
  from f sp frame_Num[of "sizeWide seg" _ sp f] obtain w where "sizeWide seg = Num w"
    by (auto simp: frameW_def moduleW_def)
  with f show ?thesis by blast
qed

lemma stepY_Num:
  assumes "stepY seg dims = Num s"
  shows "\<exists>w f. sizeUp seg = Num w \<and> frameH seg dims = Num f"
proof -
  from spacing_Num(3)[of seg] obtain fs where fs: "rowSpacingM seg = Num fs" by blast
  from assms fs obtain f where f: "frameH seg dims = Num f"
    by (auto simp: stepY_def dest: jadd_Num_right)
  from spacing_Num(1)[of seg] obtain sp where sp: "moduleSpacingM seg = Num sp" by blast
  from f sp frame_Num[of "sizeUp seg" _ sp f] obtain w where "sizeUp seg = Num w"
    by (auto simp: frameH_def moduleH_def)
  with f show ?thesis by blast
qed

lemma proj_Num_or_NaN: "(\<exists>a. jmul (Num d) (jcos y) = Num a) \<or> jmul (Num d) (jcos y) = NaN"
  by (cases y) simp_all

lemma keep_lowShape: "lowShape m \<Longrightarrow> lowShape (if jlt (jmul (Num d) (jcos y)) m then jmul (Num d) (jcos y) else m)"
  using proj_Num_or_NaN[of d y] by (auto simp: lowShape_def jlt_def)

lemma keep_highShape: "highShape m \<Longrightarrow> highShape (if jlt m (jmul (Num d) (jcos y)) then jmul (Num d) (jcos y) else m)"
  using proj_Num_or_NaN[of d y] by (auto simp: highShape_def jlt_def)

lemma projLoop_shape:
  "lowShape a \<Longrightarrow> highShape b \<Longrightarrow> lowShape c \<Longrightarrow> highShape d
   \<Longrightarrow> (case projLoop E origin bearingX bearingY ps (a, b, c, d) of
         (a', b', c', d') \<Rightarrow> lowShape a' \<and> highShape b' \<and> lowShape c' \<and> highShape d')"
proof (induction ps arbitrary: a b c d)
  case Nil
  then show ?case by simp
next
  case (Cons p ps)
  show ?case
    unfolding projLoop.simps Let_def
    by (rule Cons.IH; intro keep_lowShape keep_highShape Cons.prems)
qed

lemma extent_Num: "lowShape a \<Longrightarrow> highShape b \<Longrightarrow> \<exists>w. jmax (Num 0) (jsub b a) = Num w"
  by (auto simp: lowShape_def highShape_def jsub_def jmax_def)

lemma width_height_Num:
  "\<exists>w. widthM E seg region = Num w" "\<exists>h. heightM E seg region = Num h"
proof -
  obtain a b c d where e: "extents E seg region = (a, b, c, d)" by (cases "extents E seg region")
  from projLoop_shape[of PosInf NegInf PosInf NegInf E "centroid E region" "bearingXOf seg"
      "bearingYOf seg" "ringCoordsOf region"] e
  have "lowShape a" "highShape b" "lowShape c" "highShape d"
    by (simp_all add: extents_def lowShape_def highShape_def)
  then show "\<exists>w. widthM E seg region = Num w" "\<exists>h. heightM E seg region = Num h"
    using e extent_Num by (simp_all add: widthM_def heightM_def)
qed

lemma leftoverX_Num:
  assumes "stepX seg dims = Num s"
  shows "\<exists>l. leftoverX E seg dims region = Num l"
proof -
  from stepX_Num[OF assms(1)] obtain f where f: "frameW seg dims = Num f" by blast
  from width_height_Num(1)[of E seg region] obtain w where w: "widthM E seg region = Num w"
    by blast
  have "leftoverX E seg dims region = Num (max 0 (w - f))"
    by (simp add: leftoverX_def f w jsub_def jmax_def)
  then show ?thesis by blast
qed

lemma marginX_finite:
  assumes "leftoverX E seg dims region = Num l" and "stepX seg dims = Num s" and "s \<noteq> 0"
  shows "marginX E seg dims region
           = Num (case alignment seg of
                    Some AlignLeft \<Rightarrow> 0
                  | Some AlignRight \<Rightarrow> js_rem l s
                  | Some AlignCenter \<Rightarrow> js_rem l s / 2
                  | Some AlignJustify \<Rightarrow> js_rem l s / 2
                  | None \<Rightarrow> js_rem l s / 2)"
  using assms by (simp add: marginX_cases split: option.splits alignment.splits)

lemma placeFrame_returns:
  assumes "sizeWide seg \<noteq> PosInf" and "sizeUp seg \<noteq> PosInf"
  shows "placeFrame E seg dims region frameRowBase xOff \<noteq> None"
  unfolding placeFrame_def Let_def
  by (intro forCount_returns assms) simp

lemma packModules_returns:
  assumes "stepX seg dims = Num sx" "0 < sx" "stepY seg dims = Num sy" "0 < sy"
  shows "packModules E seg dims region \<noteq> None"
proof -
  from stepX_Num[OF assms(1)] obtain w f where w: "sizeWide seg = Num w"
    and f: "frameW seg dims = Num f" by blast
  from stepY_Num[OF assms(3)] obtain u g where u: "sizeUp seg = Num u"
    and g: "frameH seg dims = Num g" by blast
  from width_height_Num[of E seg region] obtain W H where W: "widthM E seg region = Num W"
    and H: "heightM E seg region = Num H" by blast
  from leftoverX_Num[OF assms(1), of E region] obtain l where
    l: "leftoverX E seg dims region = Num l" by blast
  from marginX_finite[OF l assms(1)] assms(2) obtain m where
    m: "marginX E seg dims region = Num m" by simp
  have bx: "jadd (jsub (widthM E seg region) (jdiv (frameW seg dims) (Num 2)))
                 (Num (1 / 1000000)) = Num (W - f / 2 + 1 / 1000000)"
    by (simp add: W f jsub_def)
  have x0: "startEast E seg dims region = Num (m + f / 2)"
    by (simp add: startEast_def m f)
  have by': "jadd (jsub (heightM E seg region) (jdiv (frameH seg dims) (Num 2)))
                  (Num (1 / 1000000)) = Num (H - g / 2 + 1 / 1000000)"
    by (simp add: H g jsub_def)
  have y0: "startNorth seg dims = Num (g / 2)"
    by (simp add: startNorth_def g)
  have row: "placeRow E seg dims region yOff \<noteq> None" for yOff
    unfolding placeRow_def Let_def bx x0 assms(1)
    by (intro forStep_returns placeFrame_returns assms(2)) (simp_all add: w u)
  show ?thesis
    unfolding packModules_def by' y0 assms(3)
    by (intro forStep_returns row assms(4)) simp
qed

text \<open>
  C2. Every ring that the layout of a segment emits is a rectangle for which
  \<open>booleanWithin\<close> against the buildable region (the inset) returned true, and with a
  setback of 0 that region is the polygon of the segment's own ring. A candidate module
  gives its whole rectangle or nothing. With finite positive steps the tiling loops end.
\<close>

theorem modules_within_region:
  "(layoutModules E moduleDims seg = Some (Returns out) \<and> ring \<in> set out
      \<longrightarrow> (\<exists>shell turfPoly.
             geometry seg = Some shell \<and> toTurfPolygon E shell = Returns turfPoly
           \<and> booleanWithin E [ring] (inset E seg turfPoly) = Returns True
           \<and> (setback seg = Some (Num 0) \<longrightarrow> booleanWithin E [ring] turfPoly = Returns True)))
   \<and> (placeModule E seg dims region frameTopLeft r c = Returns emitted
      \<longrightarrow> emitted = []
          \<or> (\<exists>whole. emitted = [whole] \<and> booleanWithin E [whole] region = Returns True))
   \<and> (stepX seg dims = Num sx \<and> 0 < sx \<and> stepY seg dims = Num sy \<and> 0 < sy
      \<longrightarrow> packModules E seg dims region \<noteq> None)"
proof -
  have a: "\<exists>shell turfPoly.
             geometry seg = Some shell \<and> toTurfPolygon E shell = Returns turfPoly
           \<and> booleanWithin E [ring] (inset E seg turfPoly) = Returns True
           \<and> (setback seg = Some (Num 0) \<longrightarrow> booleanWithin E [ring] turfPoly = Returns True)"
    if "layoutModules E moduleDims seg = Some (Returns out)" "ring \<in> set out"
  proof -
    from layoutModules_region[OF that] obtain shell turfPoly where
      g: "geometry seg = Some shell" "toTurfPolygon E shell = Returns turfPoly"
      and w: "booleanWithin E [ring] (inset E seg turfPoly) = Returns True" by blast
    have "setback seg = Some (Num 0) \<longrightarrow> inset E seg turfPoly = turfPoly"
      using inset_no_setback[of seg E turfPoly] by auto
    with g w show ?thesis by auto
  qed
  show ?thesis
    using a placeModule_whole[of E seg dims region frameTopLeft r c emitted]
      packModules_returns[of seg dims sx sy E region]
    by blast
qed

theorem modules_within_region_witness:
  "layoutModules planar demoDims demoField
     = Some (Returns [[(- (3 / 2), 0), (3 / 2, 0), (3 / 2, - 2), (- (3 / 2), - 2), (- (3 / 2), 0)]])
   \<and> setback demoField = Some (Num 0)
   \<and> toTurfPolygon planar diamond = Returns diamondPoly
   \<and> booleanWithin planar
        [[(- (3 / 2), 0), (3 / 2, 0), (3 / 2, - 2), (- (3 / 2), - 2), (- (3 / 2), 0)]] diamondPoly
       = Returns True
   \<and> stepX demoField (3, 2) = Num 3 \<and> stepY demoField (3, 2) = Num 2.6096
   \<and> packModules planar demoField (3, 2) diamondPoly \<noteq> None"
proof -
  have g: "geometry demoField = Some diamond" "setback demoField = Some (Num 0)"
    by (simp_all add: demoField_def)
  from modules_within_region
    [of planar demoDims demoField
      "[[(- (3 / 2), 0), (3 / 2, 0), (3 / 2, - 2), (- (3 / 2), - 2), (- (3 / 2), 0)]]"
      "[(- (3 / 2), 0), (3 / 2, 0), (3 / 2, - 2), (- (3 / 2), - 2), (- (3 / 2), 0)]"
      "(3, 2)" diamondPoly "(- (3 / 2), 0)" 0 0
      "[[(- (3 / 2), 0), (3 / 2, 0), (3 / 2, - 2), (- (3 / 2), - 2), (- (3 / 2), 0)]]" 3 "2.6096"]
    demo_layout g demo_toTurfPolygon demoField_frame
  show ?thesis by simp
qed

text \<open>
  C8. The margin is 0 for left, the remainder \<open>leftoverX % stepX\<close> for right, and half of
  it for center, for justify and for a missing alignment, where \<open>leftoverX\<close> is
  \<open>max(0, widthM - frameW)\<close>; for finite values and a positive step the remainder is
  \<open>l - s * floor(l / s)\<close>, in \<open>[0, s)\<close>. With justify the margin and the whole layout are
  those of center.
\<close>

theorem margin_by_alignment:
  "marginX E seg dims region =
     (case alignment seg of
        Some AlignLeft \<Rightarrow> Num 0
      | Some AlignRight \<Rightarrow> jmod (leftoverX E seg dims region) (stepX seg dims)
      | Some AlignCenter \<Rightarrow> jdiv (jmod (leftoverX E seg dims region) (stepX seg dims)) (Num 2)
      | Some AlignJustify \<Rightarrow> jdiv (jmod (leftoverX E seg dims region) (stepX seg dims)) (Num 2)
      | None \<Rightarrow> jdiv (jmod (leftoverX E seg dims region) (stepX seg dims)) (Num 2))
   \<and> leftoverX E seg dims region
       = jmax (Num 0) (jsub (widthM E seg region) (frameW seg dims))
   \<and> (leftoverX E seg dims region = Num l \<and> stepX seg dims = Num s \<and> 0 < s
      \<longrightarrow> marginX E seg dims region
            = Num (case alignment seg of
                     Some AlignLeft \<Rightarrow> 0
                   | Some AlignRight \<Rightarrow> l - s * of_int \<lfloor>l / s\<rfloor>
                   | Some AlignCenter \<Rightarrow> (l - s * of_int \<lfloor>l / s\<rfloor>) / 2
                   | Some AlignJustify \<Rightarrow> (l - s * of_int \<lfloor>l / s\<rfloor>) / 2
                   | None \<Rightarrow> (l - s * of_int \<lfloor>l / s\<rfloor>) / 2)
          \<and> 0 \<le> l - s * of_int \<lfloor>l / s\<rfloor> \<and> l - s * of_int \<lfloor>l / s\<rfloor> < s)
   \<and> marginX E (seg\<lparr>alignment := Some AlignJustify\<rparr>) dims region
       = marginX E (seg\<lparr>alignment := Some AlignCenter\<rparr>) dims region
   \<and> layoutModules E moduleDims (seg\<lparr>alignment := Some AlignJustify\<rparr>)
       = layoutModules E moduleDims (seg\<lparr>alignment := Some AlignCenter\<rparr>)"
proof -
  have fin: "marginX E seg dims region
            = Num (case alignment seg of
                     Some AlignLeft \<Rightarrow> 0
                   | Some AlignRight \<Rightarrow> l - s * of_int \<lfloor>l / s\<rfloor>
                   | Some AlignCenter \<Rightarrow> (l - s * of_int \<lfloor>l / s\<rfloor>) / 2
                   | Some AlignJustify \<Rightarrow> (l - s * of_int \<lfloor>l / s\<rfloor>) / 2
                   | None \<Rightarrow> (l - s * of_int \<lfloor>l / s\<rfloor>) / 2)
          \<and> 0 \<le> l - s * of_int \<lfloor>l / s\<rfloor> \<and> l - s * of_int \<lfloor>l / s\<rfloor> < s"
    if h: "leftoverX E seg dims region = Num l" "stepX seg dims = Num s" "0 < s"
  proof -
    from leftoverX_nonneg[OF h(1)] have l0: "0 \<le> l" .
    note e = js_rem_nonneg[OF l0 h(3)]
    from marginX_finite[OF h(1,2)] h(3) have "marginX E seg dims region
           = Num (case alignment seg of
                    Some AlignLeft \<Rightarrow> 0
                  | Some AlignRight \<Rightarrow> js_rem l s
                  | Some AlignCenter \<Rightarrow> js_rem l s / 2
                  | Some AlignJustify \<Rightarrow> js_rem l s / 2
                  | None \<Rightarrow> js_rem l s / 2)" by simp
    with e(2,3) show ?thesis unfolding e(1) by simp
  qed
  show ?thesis
    using fin marginX_cases[of E seg dims region] marginX_justify[of E seg dims region]
      layoutModules_justify[of E moduleDims seg]
    by (simp add: leftoverX_def)
qed

theorem margin_by_alignment_witness:
  "leftoverX planar demoField (3, 2) diamondPoly = Num 1
   \<and> stepX demoField (3, 2) = Num 3
   \<and> marginX planar demoField (3, 2) diamondPoly = Num (1 / 2)
   \<and> marginX planar (demoField\<lparr>alignment := Some AlignRight\<rparr>) (3, 2) diamondPoly = Num 1
   \<and> marginX planar (demoField\<lparr>alignment := Some AlignLeft\<rparr>) (3, 2) diamondPoly = Num 0
   \<and> layoutModules planar demoDims (demoField\<lparr>alignment := Some AlignJustify\<rparr>)
       = Some (Returns [[(- (3 / 2), 0), (3 / 2, 0), (3 / 2, - 2), (- (3 / 2), - 2), (- (3 / 2), 0)]])"
proof -
  have c: "demoField\<lparr>alignment := Some AlignCenter\<rparr> = demoField"
    by (simp add: demoField_def)
  have l: "leftoverX planar (demoField\<lparr>alignment := x\<rparr>) (3, 2) diamondPoly = Num 1"
    and st: "stepX (demoField\<lparr>alignment := x\<rparr>) (3, 2) = Num 3" for x
    by (simp_all add: alignment_indep4 alignment_indep5 demo_margin demoField_frame)
  have p: "(0::real) < 3" by simp
  have f: "(1::real) - 3 * of_int \<lfloor>(1::real) / 3\<rfloor> = 1" by simp
  from margin_by_alignment [of planar "demoField\<lparr>alignment := Some AlignCenter\<rparr>" "(3, 2)"
      diamondPoly 1 3 demoDims] l st p
  have "marginX planar (demoField\<lparr>alignment := Some AlignCenter\<rparr>) (3, 2) diamondPoly
          = Num (case alignment (demoField\<lparr>alignment := Some AlignCenter\<rparr>) of
                   Some AlignLeft \<Rightarrow> 0
                 | Some AlignRight \<Rightarrow> 1 - 3 * of_int \<lfloor>(1::real) / 3\<rfloor>
                 | Some AlignCenter \<Rightarrow> (1 - 3 * of_int \<lfloor>(1::real) / 3\<rfloor>) / 2
                 | Some AlignJustify \<Rightarrow> (1 - 3 * of_int \<lfloor>(1::real) / 3\<rfloor>) / 2
                 | None \<Rightarrow> (1 - 3 * of_int \<lfloor>(1::real) / 3\<rfloor>) / 2)"
    by blast
  then have m1: "marginX planar demoField (3, 2) diamondPoly = Num (1 / 2)"
    unfolding f c by (simp add: demoField_def)
  from margin_by_alignment [of planar "demoField\<lparr>alignment := Some AlignRight\<rparr>" "(3, 2)"
      diamondPoly 1 3 demoDims] l st p
  have "marginX planar (demoField\<lparr>alignment := Some AlignRight\<rparr>) (3, 2) diamondPoly
          = Num (case alignment (demoField\<lparr>alignment := Some AlignRight\<rparr>) of
                   Some AlignLeft \<Rightarrow> 0
                 | Some AlignRight \<Rightarrow> 1 - 3 * of_int \<lfloor>(1::real) / 3\<rfloor>
                 | Some AlignCenter \<Rightarrow> (1 - 3 * of_int \<lfloor>(1::real) / 3\<rfloor>) / 2
                 | Some AlignJustify \<Rightarrow> (1 - 3 * of_int \<lfloor>(1::real) / 3\<rfloor>) / 2
                 | None \<Rightarrow> (1 - 3 * of_int \<lfloor>(1::real) / 3\<rfloor>) / 2)"
    by blast
  then have m2: "marginX planar (demoField\<lparr>alignment := Some AlignRight\<rparr>) (3, 2) diamondPoly
                   = Num 1"
    unfolding f by simp
  from margin_by_alignment [of planar "demoField\<lparr>alignment := Some AlignLeft\<rparr>" "(3, 2)"
      diamondPoly 1 3 demoDims]
  have "marginX planar (demoField\<lparr>alignment := Some AlignLeft\<rparr>) (3, 2) diamondPoly
          = (case alignment (demoField\<lparr>alignment := Some AlignLeft\<rparr>) of
          Some AlignLeft \<Rightarrow> Num 0
        | Some AlignRight \<Rightarrow> jmod (leftoverX planar (demoField\<lparr>alignment := Some AlignLeft\<rparr>) (3, 2) diamondPoly) (stepX (demoField\<lparr>alignment := Some AlignLeft\<rparr>) (3, 2))
        | Some AlignCenter \<Rightarrow> jdiv (jmod (leftoverX planar (demoField\<lparr>alignment := Some AlignLeft\<rparr>) (3, 2) diamondPoly) (stepX (demoField\<lparr>alignment := Some AlignLeft\<rparr>) (3, 2))) (Num 2)
        | Some AlignJustify \<Rightarrow> jdiv (jmod (leftoverX planar (demoField\<lparr>alignment := Some AlignLeft\<rparr>) (3, 2) diamondPoly) (stepX (demoField\<lparr>alignment := Some AlignLeft\<rparr>) (3, 2))) (Num 2)
        | None \<Rightarrow> jdiv (jmod (leftoverX planar (demoField\<lparr>alignment := Some AlignLeft\<rparr>) (3, 2) diamondPoly) (stepX (demoField\<lparr>alignment := Some AlignLeft\<rparr>) (3, 2))) (Num 2))"
    by blast
  then have m3: "marginX planar (demoField\<lparr>alignment := Some AlignLeft\<rparr>) (3, 2) diamondPoly
                   = Num 0"
    by simp
  from margin_by_alignment [of planar demoField "(3, 2)" diamondPoly 1 3 demoDims]
  have "layoutModules planar demoDims (demoField\<lparr>alignment := Some AlignJustify\<rparr>)
          = layoutModules planar demoDims (demoField\<lparr>alignment := Some AlignCenter\<rparr>)"
    by blast
  then have m4: "layoutModules planar demoDims (demoField\<lparr>alignment := Some AlignJustify\<rparr>)
       = Some (Returns [[(- (3 / 2), 0), (3 / 2, 0), (3 / 2, - 2), (- (3 / 2), - 2), (- (3 / 2), 0)]])"
    unfolding c by (simp only: demo_layout)
  from m1 m2 m3 m4 demo_margin(1) demoField_frame(3) show ?thesis by blast
qed

text \<open>
  C4, amended. A setback that is missing, not finite or not positive leaves the polygon of
  the ring as the buildable region. A positive setback of \<open>s\<close> feet asks for a buffer of
  \<open>-(s * 0.3048)\<close> meters: when the buffer throws or returns nothing, the region is the
  polygon of the ring; when it returns a polygon, that one; when it returns a multi-polygon
  whose pieces \<open>turf.polygon\<close> accepts, a piece of largest area; and the polygon of the ring
  when there is no piece or \<open>turf.polygon\<close> throws on one.
\<close>

theorem inset_region:
  "((setback seg = None \<or> setback seg = Some NaN \<or> setback seg = Some PosInf
       \<or> setback seg = Some NegInf \<or> (\<exists>z. setback seg = Some (Num z) \<and> z \<le> 0))
      \<longrightarrow> inset E seg turfPoly = turfPoly)
   \<and> (setback seg = Some (Num s) \<and> 0 < s \<longrightarrow>
        (buffer E turfPoly (Num (- (s * 0.3048))) = Throws \<longrightarrow> inset E seg turfPoly = turfPoly)
      \<and> (buffer E turfPoly (Num (- (s * 0.3048))) = Returns None
            \<longrightarrow> inset E seg turfPoly = turfPoly)
      \<and> (\<forall>buff. buffer E turfPoly (Num (- (s * 0.3048))) = Returns (Some (Polygon buff))
            \<longrightarrow> inset E seg turfPoly = buff)
      \<and> (\<forall>parts. buffer E turfPoly (Num (- (s * 0.3048))) = Returns (Some (MultiPolygon parts))
            \<longrightarrow> (list_all (polygonOk E) parts \<and> parts \<noteq> []
                  \<longrightarrow> inset E seg turfPoly \<in> set parts
                      \<and> (\<forall>p \<in> set parts. area E p \<le> area E (inset E seg turfPoly)))
              \<and> (\<not> list_all (polygonOk E) parts \<or> parts = []
                  \<longrightarrow> inset E seg turfPoly = turfPoly)))"
proof -
  have multi: "(list_all (polygonOk E) parts \<and> parts \<noteq> []
                  \<longrightarrow> inset E seg turfPoly \<in> set parts
                      \<and> (\<forall>p \<in> set parts. area E p \<le> area E (inset E seg turfPoly)))
              \<and> (\<not> list_all (polygonOk E) parts \<or> parts = []
                  \<longrightarrow> inset E seg turfPoly = turfPoly)"
    if h: "setback seg = Some (Num s)" "0 < s"
      "buffer E turfPoly (Num (- (s * 0.3048))) = Returns (Some (MultiPolygon parts))" for parts
  proof -
    have i: "inset E seg turfPoly
               = (case largestPiece E parts NegInf None of
                    Throws \<Rightarrow> turfPoly | Returns None \<Rightarrow> turfPoly | Returns (Some best) \<Rightarrow> best)"
      using inset_positive[OF h(1,2), of E turfPoly] h(3) by simp
    have "inset E seg turfPoly \<in> set parts
          \<and> (\<forall>p \<in> set parts. area E p \<le> area E (inset E seg turfPoly))"
      if "list_all (polygonOk E) parts" "parts \<noteq> []"
      using largestPiece_largest[OF that] i by auto
    moreover have "inset E seg turfPoly = turfPoly" if "\<not> list_all (polygonOk E) parts"
      using largestPiece_throws[OF that, of NegInf None] i by simp
    moreover have "inset E seg turfPoly = turfPoly" if "parts = []"
      using that i by simp
    ultimately show ?thesis by blast
  qed
  have single: "(buffer E turfPoly (Num (- (s * 0.3048))) = Throws \<longrightarrow> inset E seg turfPoly = turfPoly)
      \<and> (buffer E turfPoly (Num (- (s * 0.3048))) = Returns None
            \<longrightarrow> inset E seg turfPoly = turfPoly)
      \<and> (\<forall>buff. buffer E turfPoly (Num (- (s * 0.3048))) = Returns (Some (Polygon buff))
            \<longrightarrow> inset E seg turfPoly = buff)"
    if h: "setback seg = Some (Num s)" "0 < s"
    using inset_positive[OF h, of E turfPoly] by simp
  show ?thesis
    using inset_no_setback[of seg E turfPoly] multi single by blast
qed

theorem inset_region_witness:
  "setback demoSegment = Some (Num 4)
   \<and> buffer planar squarePoly (Num (- (4 * 0.3048)))
       = Returns (Some (Polygon [[(1.2192, 1.2192), (8.7808, 1.2192), (8.7808, 8.7808),
                                  (1.2192, 8.7808), (1.2192, 1.2192)]]))
   \<and> inset planar demoSegment squarePoly
       = [[(1.2192, 1.2192), (8.7808, 1.2192), (8.7808, 8.7808), (1.2192, 8.7808),
           (1.2192, 1.2192)]]
   \<and> inset (planar\<lparr>buffer := \<lambda>p d. Returns (Some (MultiPolygon [diamondPoly, squarePoly]))\<rparr>)
       demoSegment squarePoly \<in> {diamondPoly, squarePoly}
   \<and> inset (planar\<lparr>buffer := \<lambda>p d. Throws\<rparr>) demoSegment squarePoly = squarePoly
   \<and> inset planar (demoSegment\<lparr>setback := Some (Num 0)\<rparr>) squarePoly = squarePoly"
proof -
  have s: "setback demoSegment = Some (Num 4)" by (simp add: demoSegment_def)
  have b: "buffer planar squarePoly (Num (- (4 * 0.3048)))
       = Returns (Some (Polygon [[(1.2192, 1.2192), (8.7808, 1.2192), (8.7808, 8.7808),
                                  (1.2192, 8.7808), (1.2192, 1.2192)]]))"
    by (simp add: planar_fields boxBuffer_def boxOf_def boxRing_def squarePoly_def)
  have ok: "list_all (polygonOk planar) [diamondPoly, squarePoly]"
    by (simp add: planar_fields diamondPoly_def squarePoly_def)
  from inset_region [of demoSegment planar squarePoly 4]
    inset_region [of demoSegment
      "planar\<lparr>buffer := \<lambda>p d. Returns (Some (MultiPolygon [diamondPoly, squarePoly]))\<rparr>"
      squarePoly 4]
    inset_region [of demoSegment "planar\<lparr>buffer := \<lambda>p d. Throws\<rparr>" squarePoly 4]
    inset_region [of "demoSegment\<lparr>setback := Some (Num 0)\<rparr>" planar squarePoly 4]
    s b ok
  show ?thesis by simp
qed

text \<open>
  C4 as stated fails: with a setback of 4 the region of a square of 10 m is the square inset
  by 1.2192 m, not by 4 m.
\<close>

theorem inset_distance_counterexample:
  "setback demoSegment = Some (Num 4)
   \<and> buffer planar squarePoly (Num (- 4))
       = Returns (Some (Polygon [[(4, 4), (6, 4), (6, 6), (4, 6), (4, 4)]]))
   \<and> inset planar demoSegment squarePoly
       = [[(1.2192, 1.2192), (8.7808, 1.2192), (8.7808, 8.7808), (1.2192, 8.7808),
           (1.2192, 1.2192)]]
   \<and> inset planar demoSegment squarePoly \<noteq> [[(4, 4), (6, 4), (6, 6), (4, 6), (4, 4)]]"
  by (simp add: inset_def demoSegment_def demoField_def meters_def orZero_def FT_def
      planar_fields boxBuffer_def boxOf_def boxRing_def squarePoly_def)

section \<open>Snap to close\<close>


lemma snapAndClose_False:
  "snapAndClose False coords st = st\<lparr>autoClosing := False\<rparr>"
  by (simp add: snapAndClose_def)













end
